theory Spec2Isabelle
  imports Complex_Main "HOL-Library.Sublist"
begin

section \<open>The radiobot controller (main.py) as state-passing functions\<close>

text \<open>
  main.py is the composition root of the appliance: it arms the GPIO listeners, loads the
  configuration, builds the display, player and radio managers, runs the foreground loop
  and owns the button callbacks and the two shutdown procedures.  Every statement of
  main.py is a call into a library or into one of the managers, so the model is a log of
  those calls: a statement appends the call it makes to the log, and an environment says
  for each call whether it returns or raises, and what the value-returning calls return.
  Python values that main.py only passes along are kept opaque; times are real numbers of
  seconds (the rounding of floating-point arithmetic is not modelled).
\<close>

subsection \<open>Values, exceptions, managers\<close>

datatype pyval = PyInt int | PyFloat real | PyStr string | PyList "pyval list"

datatype exn =
    SystemExit int
  | KeyboardInterrupt
  | AttributeError string
  | Exception string

text \<open>\<^verbatim>\<open>except Exception\<close> catches neither SystemExit nor KeyboardInterrupt.\<close>

fun is_Exception :: "exn \<Rightarrow> bool" where
  "is_Exception (SystemExit n) = False"
| "is_Exception KeyboardInterrupt = False"
| "is_Exception (AttributeError m) = True"
| "is_Exception (Exception m) = True"

fun str :: "exn \<Rightarrow> string" where
  "str (SystemExit n) = ''''"
| "str KeyboardInterrupt = ''''"
| "str (AttributeError m) = m"
| "str (Exception m) = m"

text \<open>
  The status the process ends with when the exception leaves the main thread uncaught: the
  argument of \<^verbatim>\<open>sys.exit\<close>, and a status other than 0 for every other exception.
\<close>

fun exit_status :: "exn \<Rightarrow> int" where
  "exit_status (SystemExit n) = n"
| "exit_status KeyboardInterrupt = 1"
| "exit_status (AttributeError m) = 1"
| "exit_status (Exception m) = 1"

text \<open>The attributes of the configuration loader that main.py reads after parsing.\<close>

record settings =
  serial_device :: pyval
  serial_baud_rate :: pyval
  name :: pyval
  halt_message :: pyval
  volume_timer :: pyval
  scroll_time_interval :: pyval
  scroll_time_pause :: pyval
  volume :: pyval
  radios :: pyval
  volume_step :: pyval
  radio_info_check_interval :: pyval
  full_radio_name_pause :: pyval
  radio_indice :: pyval

text \<open>The managers, each identified by the arguments main.py constructs it with.\<close>

record serial_port =
  port_device :: pyval
  port_baud_rate :: pyval
  port_timeout :: int

record display_manager =
  dm_serial :: serial_port
  dm_name :: pyval
  dm_halt_message :: pyval
  dm_volume_timer :: pyval
  dm_scroll_time_interval :: pyval
  dm_scroll_time_pause :: pyval

record player_manager =
  pm_volume :: pyval

record radio_manager =
  rm_radios :: pyval
  rm_volume :: pyval
  rm_volume_step :: pyval
  rm_radio_info_check_interval :: pyval
  rm_full_radio_name_pause :: pyval
  rm_radio_indice :: pyval
  rm_player :: player_manager
  rm_display :: display_manager

record config_loader =
  cl_config_file :: string

subsection \<open>Calls and the log\<close>

datatype pud = PUD_DOWN | PUD_UP

datatype edge = RISING | FALLING

datatype callback =
    Volume_up_callback
  | Volume_down_callback
  | Next_radio_callback
  | Previous_radio_callback
  | Halt_callback

text \<open>What \<^verbatim>\<open>displayManager.on_thread\<close> is asked to run on the display's thread.\<close>

datatype display_cmd = Terminate | Display_ip_address string

datatype call =
    Print string
  | Signal_SIGTERM
  | GPIO_setmode_BCM
  | GPIO_setup_IN nat pud
  | GPIO_setup_OUT nat
  | GPIO_output_LOW nat
  | GPIO_add_event_detect nat edge callback nat
  | GPIO_cleanup
  | Time_sleep real
  | ConfigLoader_new string
  | Parse_config_file
  | Serial_new serial_port
  | DisplayManager_new display_manager
  | DisplayManager_start
  | PlayerManager_new player_manager
  | RadioManager_new radio_manager
  | Play_radio
  | Ifaddresses_wlan0_addr
  | On_thread display_cmd
  | Volume_up
  | Volume_down
  | Next_radio
  | Previous_radio
  | Check_radio_info
  | Update_player
  | Get_current_volume
  | Get_current_radio_indice
  | Save_settings pyval pyval
  | Subprocess_call "string list"

datatype event = Done call | Failed call exn

text \<open>The module-level variables of main.py, and the log.\<close>

record world =
  displayManager :: "display_manager option"
  configLoader :: "config_loader option"
  radioManager :: "radio_manager option"
  playerManager :: "player_manager option"
  ip_timer :: real
  trace :: "event list"

definition module_globals :: world where
  "module_globals =
     \<lparr>displayManager = None, configLoader = None, radioManager = None,
      playerManager = None, ip_timer = 0, trace = []\<rparr>"

text \<open>
  The environment of one activation: which calls raise, the clock reading, the attributes
  the loader has after parsing, the address of wlan0 and what the accessors of the radio
  manager return.
\<close>

record env =
  raises :: "call \<Rightarrow> exn option"
  time_time :: real
  attrs :: settings
  wlan0_addr :: string
  current_volume :: pyval
  current_radio_indice :: pyval

type_synonym stmt = "world \<Rightarrow> (exn + unit) \<times> world"

definition call :: "env \<Rightarrow> call \<Rightarrow> stmt" where
  "call e c w =
     (case raises e c of
        None \<Rightarrow> (Inr (), w\<lparr>trace := trace w @ [Done c]\<rparr>)
      | Some x \<Rightarrow> (Inl x, w\<lparr>trace := trace w @ [Failed c x]\<rparr>))"

text \<open>A call on the object in a module-level variable: the variable may still be None.\<close>

definition invoke :: "(world \<Rightarrow> 'a option) \<Rightarrow> string \<Rightarrow> env \<Rightarrow> call \<Rightarrow> stmt" where
  "invoke var attr e c w =
     (case var w of
        None \<Rightarrow> (Inl (AttributeError (''NoneType object has no attribute '' @ attr)), w)
      | Some obj \<Rightarrow> call e c w)"

definition sys_exit :: "int \<Rightarrow> stmt" where
  "sys_exit n w = (Inl (SystemExit n), w)"

fun run :: "stmt list \<Rightarrow> stmt" where
  "run [] w = (Inr (), w)"
| "run (s # ss) w =
     (case s w of
        (Inl x, w') \<Rightarrow> (Inl x, w')
      | (Inr u, w') \<Rightarrow> run ss w')"

definition try_except :: "stmt \<Rightarrow> (exn \<Rightarrow> stmt option) \<Rightarrow> stmt" where
  "try_except body handler w =
     (case body w of
        (Inr u, w') \<Rightarrow> (Inr u, w')
      | (Inl x, w') \<Rightarrow>
          (case handler x of
             None \<Rightarrow> (Inl x, w')
           | Some h \<Rightarrow> h w'))"

text \<open>The events a procedure adds to the log of the world it starts from.\<close>

definition emitted :: "(world \<Rightarrow> 'r \<times> world) \<Rightarrow> world \<Rightarrow> event list" where
  "emitted s w = drop (length (trace w)) (trace (snd (s w)))"

subsection \<open>Startup functions\<close>

definition configure_GPIO :: "env \<Rightarrow> stmt" where
  "configure_GPIO e = run
     [call e GPIO_setmode_BCM,
      call e (GPIO_setup_IN 27 PUD_DOWN),
      call e (GPIO_setup_IN 23 PUD_DOWN),
      call e (GPIO_setup_IN 24 PUD_DOWN),
      call e (GPIO_setup_IN 25 PUD_DOWN),
      call e (GPIO_add_event_detect 27 RISING Volume_up_callback 200),
      call e (GPIO_add_event_detect 23 RISING Volume_down_callback 200),
      call e (GPIO_add_event_detect 24 RISING Next_radio_callback 200),
      call e (GPIO_add_event_detect 25 RISING Previous_radio_callback 200)]"

definition set_as_ready :: "env \<Rightarrow> stmt" where
  "set_as_ready e = run
     [call e (GPIO_setup_OUT 4),
      call e (GPIO_output_LOW 4),
      call e (Time_sleep (1/2)),
      call e (GPIO_setup_IN 4 PUD_UP),
      call e (GPIO_add_event_detect 4 FALLING Halt_callback 200)]"

definition the_display_manager :: "env \<Rightarrow> display_manager" where
  "the_display_manager e =
     \<lparr>dm_serial = \<lparr>port_device = serial_device (attrs e),
                   port_baud_rate = serial_baud_rate (attrs e), port_timeout = 1\<rparr>,
      dm_name = name (attrs e), dm_halt_message = halt_message (attrs e),
      dm_volume_timer = volume_timer (attrs e),
      dm_scroll_time_interval = scroll_time_interval (attrs e),
      dm_scroll_time_pause = scroll_time_pause (attrs e)\<rparr>"

definition the_player_manager :: "env \<Rightarrow> player_manager" where
  "the_player_manager e = \<lparr>pm_volume = volume (attrs e)\<rparr>"

definition the_radio_manager :: "env \<Rightarrow> radio_manager" where
  "the_radio_manager e =
     \<lparr>rm_radios = radios (attrs e), rm_volume = volume (attrs e),
      rm_volume_step = volume_step (attrs e),
      rm_radio_info_check_interval = radio_info_check_interval (attrs e),
      rm_full_radio_name_pause = full_radio_name_pause (attrs e),
      rm_radio_indice = radio_indice (attrs e),
      rm_player = the_player_manager e, rm_display = the_display_manager e\<rparr>"

definition init_radiobot :: "env \<Rightarrow> string \<Rightarrow> stmt" where
  "init_radiobot e config_file = run
     [configure_GPIO e,
      try_except
        (run [call e (ConfigLoader_new config_file),
              (\<lambda>w. (Inr (), w\<lparr>configLoader := Some \<lparr>cl_config_file = config_file\<rparr>\<rparr>)),
              invoke configLoader ''parse_config_file'' e Parse_config_file,
              call e (Print ''Configuration file loaded successfully'')])
        (\<lambda>x. if is_Exception x
              then Some (run [call e (Print (''Invalid configuration : '' @ str x)),
                              call e (Print ''Exciting.''),
                              sys_exit 2])
              else None),
      call e (Serial_new (dm_serial (the_display_manager e))),
      call e (DisplayManager_new (the_display_manager e)),
      (\<lambda>w. (Inr (), w\<lparr>displayManager := Some (the_display_manager e)\<rparr>)),
      invoke displayManager ''start'' e DisplayManager_start,
      call e (PlayerManager_new (the_player_manager e)),
      (\<lambda>w. (Inr (), w\<lparr>playerManager := Some (the_player_manager e)\<rparr>)),
      call e (RadioManager_new (the_radio_manager e)),
      (\<lambda>w. (Inr (), w\<lparr>radioManager := Some (the_radio_manager e)\<rparr>)),
      set_as_ready e,
      invoke radioManager ''play_radio'' e Play_radio]"

subsection \<open>Callback functions\<close>

definition volume_up_callback :: "env \<Rightarrow> stmt" where
  "volume_up_callback e w =
     (if time_time e - ip_timer w < 4/10
      then try_except
             (run [call e Ifaddresses_wlan0_addr,
                   call e (Print (''IP address : '' @ wlan0_addr e)),
                   invoke displayManager ''on_thread'' e
                     (On_thread (Display_ip_address (wlan0_addr e)))])
             (\<lambda>x. Some (run [])) w
      else invoke radioManager ''volume_up'' e Volume_up w)"

definition volume_down_callback :: "env \<Rightarrow> stmt" where
  "volume_down_callback e = run
     [(\<lambda>w. (Inr (), w\<lparr>ip_timer := time_time e\<rparr>)),
      invoke radioManager ''volume_down'' e Volume_down]"

definition next_radio_callback :: "env \<Rightarrow> stmt" where
  "next_radio_callback e = invoke radioManager ''next'' e Next_radio"

definition previous_radio_callback :: "env \<Rightarrow> stmt" where
  "previous_radio_callback e = invoke radioManager ''previous'' e Previous_radio"

subsection \<open>Shutdown procedures\<close>

text \<open>
  \<^verbatim>\<open>configLoader.save_settings(radioManager.get_current_volume(),
  radioManager.get_current_radio_indice())\<close>: the attribute is looked up first, then the
  arguments are evaluated from left to right, then the call is made.
\<close>

definition save_current_settings :: "env \<Rightarrow> stmt" where
  "save_current_settings e w =
     (case configLoader w of
        None \<Rightarrow> (Inl (AttributeError ''NoneType object has no attribute save_settings''), w)
      | Some cl \<Rightarrow>
          run [invoke radioManager ''get_current_volume'' e Get_current_volume,
               invoke radioManager ''get_current_radio_indice'' e Get_current_radio_indice,
               call e (Save_settings (current_volume e) (current_radio_indice e))] w)"

definition clean_exit_and_shutdown :: "env \<Rightarrow> stmt" where
  "clean_exit_and_shutdown e = run
     [call e (Print ''''),
      call e (Print ''Cleaning GPIO''),
      call e GPIO_cleanup,
      call e (Print ''Cleaning LCD''),
      invoke displayManager ''on_thread'' e (On_thread Terminate),
      call e (Print ''Saving current settings to cache''),
      save_current_settings e,
      call e (Print ''Exiting.''),
      call e (Subprocess_call [''sudo'', ''shutdown'', ''-h'', ''now'']),
      sys_exit 0]"

definition clean_exit :: "env \<Rightarrow> stmt" where
  "clean_exit e = run
     [call e (Print ''''),
      call e (Print ''Cleaning GPIO''),
      call e GPIO_cleanup,
      call e (Print ''Cleaning LCD''),
      invoke displayManager ''on_thread'' e (On_thread Terminate),
      call e (Print ''Saving current settings to cache''),
      save_current_settings e,
      call e (Print ''Exiting.''),
      sys_exit 0]"

definition halt_callback :: "env \<Rightarrow> stmt" where
  "halt_callback e = run
     [call e (Print ''Shutdown requested !''),
      clean_exit_and_shutdown e]"

definition sigterm_callback :: "env \<Rightarrow> stmt" where
  "sigterm_callback e = clean_exit e"

subsection \<open>The main function\<close>

text \<open>
  One pass of the body of \<^verbatim>\<open>while True\<close>.  A pass is either undisturbed, or
  SIGTERM is delivered after its first \<open>k\<close> statements: Python then runs the registered
  handler in the main thread, on top of the interrupted loop, and an exception leaving
  the handler continues from there.
\<close>

datatype tick = Quiet env | Sigterm nat env

definition loop_body :: "env \<Rightarrow> stmt list" where
  "loop_body e =
     [invoke radioManager ''check_radio_info'' e Check_radio_info,
      invoke playerManager ''update_player'' e Update_player,
      call e (Time_sleep (1/20))]"

fun iteration :: "tick \<Rightarrow> stmt" where
  "iteration (Quiet e) = run (loop_body e)"
| "iteration (Sigterm k e) =
     run [run (take k (loop_body e)), sigterm_callback e, run (drop k (loop_body e))]"

text \<open>
  The loop has no exit of its own.  It is run on a finite list of passes; when the list
  is used up the loop is still running.
\<close>

datatype outcome = Running | Returned | Raised exn

fun while_True :: "tick list \<Rightarrow> world \<Rightarrow> outcome \<times> world" where
  "while_True [] w = (Running, w)"
| "while_True (t # ts) w =
     (case iteration t w of
        (Inl x, w') \<Rightarrow> (Raised x, w')
      | (Inr u, w') \<Rightarrow> while_True ts w')"

fun finished :: "(exn + unit) \<times> world \<Rightarrow> outcome \<times> world" where
  "finished (Inl x, w) = (Raised x, w)"
| "finished (Inr u, w) = (Returned, w)"

text \<open>
  \<^verbatim>\<open>try: while True: ... except KeyboardInterrupt: clean_exit()\<close>; \<open>eh\<close> is the
  environment of the handler.
\<close>

definition foreground_loop :: "tick list \<Rightarrow> env \<Rightarrow> world \<Rightarrow> outcome \<times> world" where
  "foreground_loop ticks eh w =
     (case while_True ticks w of
        (Raised KeyboardInterrupt, w') \<Rightarrow> finished (clean_exit eh w')
      | r \<Rightarrow> r)"

definition main :: "env \<Rightarrow> string \<Rightarrow> tick list \<Rightarrow> env \<Rightarrow> world \<Rightarrow> outcome \<times> world" where
  "main e config_file ticks eh w =
     (case run [call e (Print ''Radiobot (v1.0)''),
                call e (Print ''Written by Chuck182''),
                call e (Print ''''),
                call e Signal_SIGTERM,
                init_radiobot e config_file] w of
        (Inl x, w') \<Rightarrow> (Raised x, w')
      | (Inr u, w') \<Rightarrow> foreground_loop ticks eh w')"

text \<open>The script: \<open>argv\<close> is \<^verbatim>\<open>sys.argv\<close>, the script's name first.\<close>

definition script :: "env \<Rightarrow> string list \<Rightarrow> tick list \<Rightarrow> env \<Rightarrow> world \<Rightarrow> outcome \<times> world" where
  "script e argv ticks eh w =
     (if length argv \<le> 1
      then finished (run [call e (Print ''Missing configuration file path''),
                          call e (Print ''Exiting.''),
                          sys_exit 2] w)
      else main e (argv ! 1) ticks eh w)"

text \<open>The three triggers of a shutdown and the procedure each one enters.\<close>

datatype trigger = Halt_button | Termination_signal | Keyboard_interruption

fun shutdown :: "trigger \<Rightarrow> env \<Rightarrow> stmt" where
  "shutdown Halt_button e = halt_callback e"
| "shutdown Termination_signal e = sigterm_callback e"
| "shutdown Keyboard_interruption e = clean_exit e"

section \<open>Vocabulary of the properties\<close>

subsection \<open>Logs\<close>

text \<open>All four module-level managers have been assigned, as they are once startup is over.\<close>

definition ready :: "world \<Rightarrow> bool" where
  "ready w \<longleftrightarrow> displayManager w \<noteq> None \<and> configLoader w \<noteq> None \<and>
     radioManager w \<noteq> None \<and> playerManager w \<noteq> None"

text \<open>The call an event is about.\<close>

fun call_of :: "event \<Rightarrow> call" where
  "call_of (Done c) = c"
| "call_of (Failed c x) = c"

fun is_Print :: "call \<Rightarrow> bool" where
  "is_Print (Print s) = True"
| "is_Print c = False"

fun is_Save_settings :: "call \<Rightarrow> bool" where
  "is_Save_settings (Save_settings v i) = True"
| "is_Save_settings c = False"

fun is_Subprocess_call :: "call \<Rightarrow> bool" where
  "is_Subprocess_call (Subprocess_call args) = True"
| "is_Subprocess_call c = False"

text \<open>The calls of a log that returned, console output left out.\<close>

fun performed :: "event list \<Rightarrow> call list" where
  "performed [] = []"
| "performed (Done (Print s) # evs) = performed evs"
| "performed (Done c # evs) = c # performed evs"
| "performed (Failed c x # evs) = performed evs"

text \<open>How many times a log has the settings written.\<close>

fun settings_writes :: "event list \<Rightarrow> nat" where
  "settings_writes [] = 0"
| "settings_writes (Done (Save_settings v i) # evs) = Suc (settings_writes evs)"
| "settings_writes (ev # evs) = settings_writes evs"

text \<open>
  What a straight run of calls leaves behind: the exception of the first call that raises,
  and the log up to and including that call.
\<close>

fun first_raise :: "env \<Rightarrow> call list \<Rightarrow> exn option" where
  "first_raise e [] = None"
| "first_raise e (c # cs) =
     (case raises e c of Some x \<Rightarrow> Some x | None \<Rightarrow> first_raise e cs)"

fun logged :: "env \<Rightarrow> call list \<Rightarrow> event list" where
  "logged e [] = []"
| "logged e (c # cs) =
     (case raises e c of Some x \<Rightarrow> [Failed c x] | None \<Rightarrow> Done c # logged e cs)"

text \<open>
  A statement that changes nothing but the log, and adds only calls from \<open>C\<close> to it;
  a statement that leaves the timer of the address gesture as it is.
\<close>

definition only_calls :: "call set \<Rightarrow> stmt \<Rightarrow> bool" where
  "only_calls C s \<longleftrightarrow>
     (\<forall>w. \<exists>evs. snd (s w) = w\<lparr>trace := trace w @ evs\<rparr> \<and> call_of ` set evs \<subseteq> C)"

definition keeps_timer :: "stmt \<Rightarrow> bool" where
  "keeps_timer s \<longleftrightarrow> (\<forall>w. ip_timer (snd (s w)) = ip_timer w)"

subsection \<open>The calls of the procedures\<close>

text \<open>
  The calls the shutdown procedures make when the managers are assigned, in program
  order, and the same with the console output left out.
\<close>

definition exit_calls :: "env \<Rightarrow> call list" where
  "exit_calls e =
     [Print '''', Print ''Cleaning GPIO'', GPIO_cleanup, Print ''Cleaning LCD'',
      On_thread Terminate, Print ''Saving current settings to cache'',
      Get_current_volume, Get_current_radio_indice,
      Save_settings (current_volume e) (current_radio_indice e), Print ''Exiting.'']"

definition power_off :: call where
  "power_off = Subprocess_call [''sudo'', ''shutdown'', ''-h'', ''now'']"

fun shutdown_calls :: "trigger \<Rightarrow> env \<Rightarrow> call list" where
  "shutdown_calls Halt_button e = Print ''Shutdown requested !'' # exit_calls e @ [power_off]"
| "shutdown_calls Termination_signal e = exit_calls e"
| "shutdown_calls Keyboard_interruption e = exit_calls e"

definition shutdown_steps :: "trigger \<Rightarrow> env \<Rightarrow> call list" where
  "shutdown_steps t e =
     [GPIO_cleanup, On_thread Terminate, Get_current_volume, Get_current_radio_indice,
      Save_settings (current_volume e) (current_radio_indice e)] @
     (if t = Halt_button then [power_off] else [])"

text \<open>The calls of \<^verbatim>\<open>configure_GPIO\<close> and of \<^verbatim>\<open>set_as_ready\<close>, in program order.\<close>

definition button_listeners :: "call list" where
  "button_listeners =
     [GPIO_setmode_BCM,
      GPIO_setup_IN 27 PUD_DOWN, GPIO_setup_IN 23 PUD_DOWN,
      GPIO_setup_IN 24 PUD_DOWN, GPIO_setup_IN 25 PUD_DOWN,
      GPIO_add_event_detect 27 RISING Volume_up_callback 200,
      GPIO_add_event_detect 23 RISING Volume_down_callback 200,
      GPIO_add_event_detect 24 RISING Next_radio_callback 200,
      GPIO_add_event_detect 25 RISING Previous_radio_callback 200]"

definition ready_signal :: "call list" where
  "ready_signal =
     [GPIO_setup_OUT 4, GPIO_output_LOW 4, Time_sleep (1/2),
      GPIO_setup_IN 4 PUD_UP, GPIO_add_event_detect 4 FALLING Halt_callback 200]"

text \<open>The calls of one pass of the foreground loop, and the environment of a pass.\<close>

definition loop_calls :: "call list" where
  "loop_calls = [Check_radio_info, Update_player, Time_sleep (1/20)]"

fun tick_env :: "tick \<Rightarrow> env" where
  "tick_env (Quiet e) = e"
| "tick_env (Sigterm k e) = e"

text \<open>The calls of a pass that are made before anything from outside reaches it.\<close>

fun calls_before :: "tick \<Rightarrow> call list" where
  "calls_before (Quiet e) = loop_calls"
| "calls_before (Sigterm k e) = take k loop_calls"

text \<open>The three calls of a pass return.\<close>

definition passes_quietly :: "env \<Rightarrow> bool" where
  "passes_quietly e \<longleftrightarrow>
     raises e Check_radio_info = None \<and> raises e Update_player = None \<and>
     raises e (Time_sleep (1/20)) = None"

text \<open>The log of one pass, and of \<open>n\<close> passes, in which the three calls return.\<close>

definition pass_log :: "event list" where
  "pass_log = [Done Check_radio_info, Done Update_player, Done (Time_sleep (1/20))]"

definition passes_log :: "nat \<Rightarrow> event list" where
  "passes_log n = concat (replicate n pass_log)"

subsection \<open>Button presses\<close>

text \<open>
  The callback each listener is registered with, and button presses delivered one after
  another: an exception that leaves a callback does not reach the next one.
\<close>

fun dispatch :: "callback \<Rightarrow> env \<Rightarrow> stmt" where
  "dispatch Volume_up_callback e = volume_up_callback e"
| "dispatch Volume_down_callback e = volume_down_callback e"
| "dispatch Next_radio_callback e = next_radio_callback e"
| "dispatch Previous_radio_callback e = previous_radio_callback e"
| "dispatch Halt_callback e = halt_callback e"

fun deliver :: "(callback \<times> env) list \<Rightarrow> world \<Rightarrow> world" where
  "deliver [] w = w"
| "deliver ((b, e) # ps) w = deliver ps (snd (dispatch b e w))"

text \<open>The clock reading at the most recent volume-down press of a history, if there is one.\<close>

fun last_volume_down :: "(callback \<times> env) list \<Rightarrow> real option" where
  "last_volume_down [] = None"
| "last_volume_down ((b, e) # ps) =
     (case last_volume_down ps of
        Some t \<Rightarrow> Some t
      | None \<Rightarrow> if b = Volume_down_callback then Some (time_time e) else None)"

subsection \<open>Example inputs\<close>

definition example_settings :: settings where
  "example_settings =
     \<lparr>serial_device = PyStr ''/dev/ttyAMA0'', serial_baud_rate = PyInt 9600,
      name = PyStr ''Radiobot'', halt_message = PyStr ''Bye'',
      volume_timer = PyInt 2, scroll_time_interval = PyFloat (3/10),
      scroll_time_pause = PyInt 2, volume = PyInt 60,
      radios = PyList [PyStr ''A'', PyStr ''B'', PyStr ''C''], volume_step = PyInt 5,
      radio_info_check_interval = PyInt 10, full_radio_name_pause = PyInt 3,
      radio_indice = PyInt 2\<rparr>"

text \<open>Every call returns; the clock reads a day of November 2023.\<close>

definition quiet :: env where
  "quiet =
     \<lparr>raises = (\<lambda>c. None), time_time = 1700000000, attrs = example_settings,
      wlan0_addr = ''192.168.1.20'', current_volume = PyInt 65,
      current_radio_indice = PyInt 1\<rparr>"

text \<open>The module-level variables after a startup with the example settings.\<close>

definition running_world :: world where
  "running_world =
     \<lparr>displayManager = Some (the_display_manager quiet),
      configLoader = Some \<lparr>cl_config_file = ''radiobot.json''\<rparr>,
      radioManager = Some (the_radio_manager quiet),
      playerManager = Some (the_player_manager quiet),
      ip_timer = 0, trace = []\<rparr>"

text \<open>\<^verbatim>\<open>GPIO.cleanup()\<close> raises.\<close>

definition cleanup_fails :: env where
  "cleanup_fails =
     quiet\<lparr>raises := (\<lambda>c. None)(GPIO_cleanup := Some (Exception ''cleanup failed''))\<rparr>"

text \<open>Ctrl-C arrives while the last line of the shutdown procedure is printed.\<close>

definition interrupted_at_exit :: env where
  "interrupted_at_exit =
     quiet\<lparr>raises := (\<lambda>c. None)(Print ''Exiting.'' := Some KeyboardInterrupt)\<rparr>"

text \<open>The stream cannot be polled: \<^verbatim>\<open>check_radio_info()\<close> raises.\<close>

definition stream_error :: env where
  "stream_error =
     quiet\<lparr>raises := (\<lambda>c. None)(Check_radio_info := Some (Exception ''stream error''))\<rparr>"

text \<open>Ctrl-C arrives while the loop sleeps.\<close>

definition interrupted_in_sleep :: env where
  "interrupted_in_sleep =
     quiet\<lparr>raises := (\<lambda>c. None)(Time_sleep (1/20) := Some KeyboardInterrupt)\<rparr>"

text \<open>The interface wlan0 has no address; the display refuses the command.\<close>

definition lookup_fails :: env where
  "lookup_fails =
     quiet\<lparr>raises := (\<lambda>c. None)(Ifaddresses_wlan0_addr := Some (Exception ''no wlan0''))\<rparr>"

definition push_fails :: env where
  "push_fails =
     quiet\<lparr>raises := (\<lambda>c. None)
       (On_thread (Display_ip_address ''192.168.1.20'') := Some (Exception ''display gone''))\<rparr>"

text \<open>The configuration file does not validate.\<close>

definition config_invalid :: env where
  "config_invalid =
     quiet\<lparr>raises := (\<lambda>c. None)(Parse_config_file := Some (Exception ''missing key''))\<rparr>"

section \<open>Running a list of statements\<close>

lemma run_run: "run (run xs # ss) w = run (xs @ ss) w"
proof (induction xs arbitrary: w)
  case Nil
  show ?case by simp
next
  case (Cons s xs)
  obtain r w' where sw: "s w = (r, w')" by (cases "s w")
  show ?case
  proof (cases r)
    case (Inl x)
    with sw show ?thesis by simp
  next
    case (Inr u)
    with sw Cons.IH [of w'] show ?thesis by simp
  qed
qed

lemma run_call_None:
  "raises e c = None \<Longrightarrow> run (call e c # ss) w = run ss (w\<lparr>trace := trace w @ [Done c]\<rparr>)"
  by (simp add: call_def)

lemma run_call_Some:
  "raises e c = Some x \<Longrightarrow> run (call e c # ss) w = (Inl x, w\<lparr>trace := trace w @ [Failed c x]\<rparr>)"
  by (simp add: call_def)

lemma run_calls:
  "run (map (call e) cs @ ss) w =
     (case first_raise e cs of
        None \<Rightarrow> run ss (w\<lparr>trace := trace w @ logged e cs\<rparr>)
      | Some x \<Rightarrow> (Inl x, w\<lparr>trace := trace w @ logged e cs\<rparr>))"
proof (induction cs arbitrary: w)
  case Nil
  show ?case by simp
next
  case (Cons c cs)
  show ?case
  proof (cases "raises e c")
    case None
    have "run (map (call e) (c # cs) @ ss) w =
          run (map (call e) cs @ ss) (w\<lparr>trace := trace w @ [Done c]\<rparr>)"
      using None by (simp add: run_call_None del: run.simps)
    then show ?thesis
      using None by (simp add: Cons.IH split: option.split)
  next
    case (Some x)
    then show ?thesis by (simp add: run_call_Some del: run.simps)
  qed
qed

lemma absorb_call:
  "run (map (call e) cs @ call e c # ss) w = run (map (call e) (cs @ [c]) @ ss) w"
  by simp

lemma run_invoke_Some:
  "var w = Some obj \<Longrightarrow> run (invoke var a e c # ss) w = run (call e c # ss) w"
  by (simp add: invoke_def)

lemma absorb_invoke:
  assumes "var w \<noteq> None" and "\<And>w t. var (w\<lparr>trace := t\<rparr>) = var w"
  shows "run (map (call e) cs @ invoke var a e c # ss) w = run (map (call e) (cs @ [c]) @ ss) w"
proof -
  from assms(1) obtain obj where obj: "var w = Some obj" by auto
  have step: "run (invoke var a e c # ss) (w\<lparr>trace := t\<rparr>) = run (call e c # ss) (w\<lparr>trace := t\<rparr>)"
    for t
    by (rule run_invoke_Some [of _ _ obj]) (simp add: assms(2) obj)
  have "run (map (call e) cs @ invoke var a e c # ss) w =
        run (map (call e) cs @ call e c # ss) w"
    unfolding run_calls [of e cs] step ..
  then show ?thesis by simp
qed

lemma run_save_Some:
  assumes "configLoader w = Some cl" and "radioManager w = Some rm"
  shows "run (save_current_settings e # ss) w =
         run (map (call e) [Get_current_volume, Get_current_radio_indice,
                Save_settings (current_volume e) (current_radio_indice e)] @ ss) w"
proof -
  let ?body = "[invoke radioManager ''get_current_volume'' e Get_current_volume,
               invoke radioManager ''get_current_radio_indice'' e Get_current_radio_indice,
               call e (Save_settings (current_volume e) (current_radio_indice e))]"
  have "save_current_settings e w = run ?body w"
    using assms by (simp add: save_current_settings_def)
  then have "run (save_current_settings e # ss) w = run (run ?body # ss) w"
    by simp
  also have "\<dots> = run (?body @ ss) w"
    by (rule run_run)
  also have "\<dots> = run (map (call e) [] @ ?body @ ss) w"
    by simp
  also have "\<dots> = run (map (call e) [Get_current_volume, Get_current_radio_indice,
                Save_settings (current_volume e) (current_radio_indice e)] @ ss) w"
    using assms
    by (simp add: absorb_invoke absorb_call del: run.simps map_append list.map)
  finally show ?thesis .
qed

lemma absorb_save:
  assumes "configLoader w \<noteq> None" and "radioManager w \<noteq> None"
  shows "run (map (call e) cs @ save_current_settings e # ss) w =
         run (map (call e) (cs @ [Get_current_volume, Get_current_radio_indice,
                Save_settings (current_volume e) (current_radio_indice e)]) @ ss) w"
proof -
  from assms obtain cl rm where *: "configLoader w = Some cl" "radioManager w = Some rm"
    by auto
  have step: "run (save_current_settings e # ss) (w\<lparr>trace := t\<rparr>) =
        run (map (call e) [Get_current_volume, Get_current_radio_indice,
                Save_settings (current_volume e) (current_radio_indice e)] @ ss) (w\<lparr>trace := t\<rparr>)"
    for t
    by (rule run_save_Some [of _ cl rm]) (simp_all add: *)
  have "run (map (call e) cs @ save_current_settings e # ss) w =
        run (map (call e) cs @ map (call e) [Get_current_volume, Get_current_radio_indice,
                Save_settings (current_volume e) (current_radio_indice e)] @ ss) w"
    unfolding run_calls [of e cs] step ..
  then show ?thesis by simp
qed

lemma absorb_run:
  "run (map (call e) cs @ run xs # ss) w = run (map (call e) cs @ xs @ ss) w"
  unfolding run_calls [of e cs] run_run ..

lemma run_exit_last: "\<exists>x w'. run (ss @ [sys_exit n]) w = (Inl x, w')"
proof (induction ss arbitrary: w)
  case Nil
  show ?case by (simp add: sys_exit_def)
next
  case (Cons s ss)
  obtain r w1 where sw: "s w = (r, w1)" by (cases "s w")
  show ?case
  proof (cases r)
    case (Inl x)
    with sw show ?thesis by simp
  next
    case (Inr u)
    with sw Cons.IH [of w1] show ?thesis by simp
  qed
qed

subsection \<open>The log of a straight run of calls\<close>

lemma first_raise_None: "first_raise e cs = None \<longleftrightarrow> (\<forall>c\<in>set cs. raises e c = None)"
  by (induction cs) (auto split: option.split)

lemma logged_all_return: "\<forall>c\<in>set cs. raises e c = None \<Longrightarrow> logged e cs = map Done cs"
  by (induction cs) auto

lemma logged_Failed:
  "Failed c x \<in> set (logged e cs) \<Longrightarrow> first_raise e cs = Some x \<and> last (logged e cs) = Failed c x"
proof (induction cs)
  case Nil
  then show ?case by simp
next
  case (Cons d cs)
  show ?case
  proof (cases "raises e d")
    case None
    with Cons show ?thesis by (cases "logged e cs") auto
  next
    case (Some y)
    with Cons.prems show ?thesis by simp
  qed
qed

lemma performed_Done_Cons:
  "performed (Done c # evs) = (if is_Print c then performed evs else c # performed evs)"
  by (cases c) simp_all

lemma performed_logged: "prefix (performed (logged e cs)) (filter (\<lambda>c. \<not> is_Print c) cs)"
  by (induction cs) (auto simp: performed_Done_Cons split: option.split)

lemma performed_map_Done: "performed (map Done cs) = filter (\<lambda>c. \<not> is_Print c) cs"
  by (induction cs) (auto simp: performed_Done_Cons)

lemma settings_writes_Done_Cons:
  "settings_writes (Done c # evs) =
     (if is_Save_settings c then Suc (settings_writes evs) else settings_writes evs)"
  by (cases c) simp_all

lemma settings_writes_logged:
  "settings_writes (logged e cs) \<le> length (filter is_Save_settings cs)"
  by (induction cs) (auto simp: settings_writes_Done_Cons split: option.split)

lemma settings_writes_map_Done:
  "settings_writes (map Done cs) = length (filter is_Save_settings cs)"
  by (induction cs) (auto simp: settings_writes_Done_Cons)

subsection \<open>Statements that only log\<close>

lemma only_callsI:
  "(\<And>w. \<exists>evs. snd (s w) = w\<lparr>trace := trace w @ evs\<rparr> \<and> call_of ` set evs \<subseteq> C)
   \<Longrightarrow> only_calls C s"
  by (simp add: only_calls_def)

lemma only_calls_call: "c \<in> C \<Longrightarrow> only_calls C (call e c)"
proof (rule only_callsI)
  fix w
  assume c: "c \<in> C"
  show "\<exists>evs. snd (call e c w) = w\<lparr>trace := trace w @ evs\<rparr> \<and> call_of ` set evs \<subseteq> C"
  proof (cases "raises e c")
    case None
    with c show ?thesis by (intro exI [of _ "[Done c]"]) (simp add: call_def)
  next
    case (Some x)
    with c show ?thesis by (intro exI [of _ "[Failed c x]"]) (simp add: call_def)
  qed
qed

lemma only_calls_skip: "snd (s w) = w \<Longrightarrow>
  \<exists>evs. snd (s w) = w\<lparr>trace := trace w @ evs\<rparr> \<and> call_of ` set evs \<subseteq> C"
  by (intro exI [of _ "[]"]) simp

lemma only_calls_invoke: "c \<in> C \<Longrightarrow> only_calls C (invoke var a e c)"
proof (rule only_callsI)
  fix w
  assume c: "c \<in> C"
  show "\<exists>evs. snd (invoke var a e c w) = w\<lparr>trace := trace w @ evs\<rparr> \<and> call_of ` set evs \<subseteq> C"
  proof (cases "var w")
    case None
    then show ?thesis by (intro only_calls_skip) (simp add: invoke_def)
  next
    case (Some obj)
    then have "invoke var a e c w = call e c w" by (simp add: invoke_def)
    with only_calls_call [OF c, of e] show ?thesis by (simp add: only_calls_def)
  qed
qed

lemma only_calls_sys_exit: "only_calls C (sys_exit n)"
  by (rule only_callsI, intro only_calls_skip) (simp add: sys_exit_def)

lemma only_calls_run: "\<forall>s\<in>set ss. only_calls C s \<Longrightarrow> only_calls C (run ss)"
proof (induction ss)
  case Nil
  show ?case by (rule only_callsI, intro only_calls_skip) simp
next
  case (Cons s ss)
  show ?case
  proof (rule only_callsI)
    fix w
    obtain r w' where sw: "s w = (r, w')" by (cases "s w")
    from Cons.prems have "only_calls C s" by simp
    then obtain evs where evs: "w' = w\<lparr>trace := trace w @ evs\<rparr>" "call_of ` set evs \<subseteq> C"
      using sw by (auto simp: only_calls_def dest: spec [of _ w])
    show "\<exists>evs. snd (run (s # ss) w) = w\<lparr>trace := trace w @ evs\<rparr> \<and> call_of ` set evs \<subseteq> C"
    proof (cases r)
      case (Inl x)
      with sw evs show ?thesis by (intro exI [of _ evs]) simp
    next
      case (Inr u)
      from Cons have "only_calls C (run ss)" by simp
      then obtain evs' where evs': "snd (run ss w') = w'\<lparr>trace := trace w' @ evs'\<rparr>"
          "call_of ` set evs' \<subseteq> C"
        by (auto simp: only_calls_def dest: spec [of _ w'])
      with Inr sw evs show ?thesis by (intro exI [of _ "evs @ evs'"]) auto
    qed
  qed
qed

lemma only_calls_save:
  assumes "Get_current_volume \<in> C" "Get_current_radio_indice \<in> C"
    "Save_settings (current_volume e) (current_radio_indice e) \<in> C"
  shows "only_calls C (save_current_settings e)"
proof (rule only_callsI)
  fix w
  show "\<exists>evs. snd (save_current_settings e w) = w\<lparr>trace := trace w @ evs\<rparr> \<and> call_of ` set evs \<subseteq> C"
  proof (cases "configLoader w")
    case None
    then show ?thesis by (intro only_calls_skip) (simp add: save_current_settings_def)
  next
    case (Some cl)
    have "only_calls C (run [invoke radioManager ''get_current_volume'' e Get_current_volume,
               invoke radioManager ''get_current_radio_indice'' e Get_current_radio_indice,
               call e (Save_settings (current_volume e) (current_radio_indice e))])"
      using assms by (intro only_calls_run) (simp add: only_calls_invoke only_calls_call)
    with Some show ?thesis by (simp add: save_current_settings_def only_calls_def)
  qed
qed

lemma only_calls_try_except:
  assumes "only_calls C body" and "\<And>x h. handler x = Some h \<Longrightarrow> only_calls C h"
  shows "only_calls C (try_except body handler)"
proof (rule only_callsI)
  fix w
  obtain r w' where bw: "body w = (r, w')" by (cases "body w")
  from assms(1) obtain evs where evs: "w' = w\<lparr>trace := trace w @ evs\<rparr>" "call_of ` set evs \<subseteq> C"
    using bw by (auto simp: only_calls_def dest: spec [of _ w])
  show "\<exists>evs. snd (try_except body handler w) = w\<lparr>trace := trace w @ evs\<rparr> \<and> call_of ` set evs \<subseteq> C"
  proof (cases r)
    case (Inr u)
    with bw evs show ?thesis by (intro exI [of _ evs]) (simp add: try_except_def)
  next
    case (Inl x)
    show ?thesis
    proof (cases "handler x")
      case None
      with Inl bw evs show ?thesis by (intro exI [of _ evs]) (simp add: try_except_def)
    next
      case (Some h)
      with assms(2) have "only_calls C h" by simp
      then obtain evs' where evs': "snd (h w') = w'\<lparr>trace := trace w' @ evs'\<rparr>"
          "call_of ` set evs' \<subseteq> C"
        by (auto simp: only_calls_def dest: spec [of _ w'])
      with Some Inl bw evs show ?thesis
        by (intro exI [of _ "evs @ evs'"]) (auto simp add: try_except_def)
    qed
  qed
qed

lemma only_calls_emitted: "only_calls C s \<Longrightarrow> call_of ` set (emitted s w) \<subseteq> C"
proof -
  assume "only_calls C s"
  then obtain evs where "snd (s w) = w\<lparr>trace := trace w @ evs\<rparr>" "call_of ` set evs \<subseteq> C"
    by (auto simp: only_calls_def dest: spec [of _ w])
  then show ?thesis by (simp add: emitted_def)
qed

lemma keeps_timer_only_calls: "only_calls C s \<Longrightarrow> keeps_timer s"
proof -
  assume a: "only_calls C s"
  show ?thesis
    unfolding keeps_timer_def
  proof
    fix w
    from a obtain evs where "snd (s w) = w\<lparr>trace := trace w @ evs\<rparr>"
      by (auto simp: only_calls_def dest: spec [of _ w])
    then show "ip_timer (snd (s w)) = ip_timer w" by simp
  qed
qed

lemma keeps_timer_run: "\<forall>s\<in>set ss. keeps_timer s \<Longrightarrow> keeps_timer (run ss)"
proof (induction ss)
  case Nil
  show ?case by (simp add: keeps_timer_def)
next
  case (Cons s ss)
  then have s: "keeps_timer s" and ss: "keeps_timer (run ss)" by simp_all
  show ?case
    unfolding keeps_timer_def
  proof
    fix w
    obtain r w' where sw: "s w = (r, w')" by (cases "s w")
    with s have w': "ip_timer w' = ip_timer w" by (auto simp: keeps_timer_def dest: spec [of _ w])
    show "ip_timer (snd (run (s # ss) w)) = ip_timer w"
    proof (cases r)
      case (Inl x)
      with sw w' show ?thesis by simp
    next
      case (Inr u)
      with sw w' ss show ?thesis by (auto simp: keeps_timer_def dest: spec [of _ w'])
    qed
  qed
qed

lemma keeps_timer_try_except:
  assumes "keeps_timer body" and "\<And>x h. handler x = Some h \<Longrightarrow> keeps_timer h"
  shows "keeps_timer (try_except body handler)"
  unfolding keeps_timer_def
proof
  fix w
  obtain r w' where bw: "body w = (r, w')" by (cases "body w")
  with assms(1) have w': "ip_timer w' = ip_timer w"
    by (auto simp: keeps_timer_def dest: spec [of _ w])
  show "ip_timer (snd (try_except body handler w)) = ip_timer w"
  proof (cases r)
    case (Inr u)
    with bw w' show ?thesis by (simp add: try_except_def)
  next
    case (Inl x)
    show ?thesis
    proof (cases "handler x")
      case None
      with Inl bw w' show ?thesis by (simp add: try_except_def)
    next
      case (Some h)
      with assms(2) have "keeps_timer h" by simp
      then have "ip_timer (snd (h w')) = ip_timer w'" by (simp add: keeps_timer_def)
      with Some Inl bw w' show ?thesis by (simp add: try_except_def)
    qed
  qed
qed

lemma keeps_timer_call: "keeps_timer (call e c)"
  by (rule keeps_timer_only_calls [of UNIV]) (simp add: only_calls_call)

lemma keeps_timer_invoke: "keeps_timer (invoke var a e c)"
  by (rule keeps_timer_only_calls [of UNIV]) (simp add: only_calls_invoke)

lemma keeps_timer_sys_exit: "keeps_timer (sys_exit n)"
  by (simp add: keeps_timer_def sys_exit_def)

section \<open>The procedures of main.py\<close>

subsection \<open>Shutdown\<close>

lemma ready_trace_update: "ready (w\<lparr>trace := t\<rparr>) = ready w"
  by (simp add: ready_def)

lemma clean_exit_calls:
  assumes "ready w"
  shows "clean_exit e w = run (map (call e) (exit_calls e) @ [sys_exit 0]) w"
proof -
  have "clean_exit e w = run (map (call e) [] @ [call e (Print ''''),
      call e (Print ''Cleaning GPIO''),
      call e GPIO_cleanup,
      call e (Print ''Cleaning LCD''),
      invoke displayManager ''on_thread'' e (On_thread Terminate),
      call e (Print ''Saving current settings to cache''),
      save_current_settings e,
      call e (Print ''Exiting.''),
      sys_exit 0]) w"
    by (simp add: clean_exit_def)
  also have "\<dots> = run (map (call e) (exit_calls e) @ [sys_exit 0]) w"
    using assms unfolding exit_calls_def ready_def
    by (simp add: absorb_call absorb_invoke absorb_save del: run.simps map_append list.map)
  finally show ?thesis .
qed

lemma halt_callback_calls:
  assumes "ready w"
  shows "halt_callback e w = run (map (call e) (shutdown_calls Halt_button e) @ [sys_exit 0]) w"
proof -
  have "halt_callback e w = run (map (call e) [] @ [call e (Print ''Shutdown requested !''),
      run [call e (Print ''''),
      call e (Print ''Cleaning GPIO''),
      call e GPIO_cleanup,
      call e (Print ''Cleaning LCD''),
      invoke displayManager ''on_thread'' e (On_thread Terminate),
      call e (Print ''Saving current settings to cache''),
      save_current_settings e,
      call e (Print ''Exiting.''),
      call e (Subprocess_call [''sudo'', ''shutdown'', ''-h'', ''now'']),
      sys_exit 0]]) w"
    by (simp add: halt_callback_def clean_exit_and_shutdown_def)
  also have "\<dots> = run (map (call e) (shutdown_calls Halt_button e) @ [sys_exit 0]) w"
    using assms unfolding exit_calls_def ready_def shutdown_calls.simps power_off_def
    by (simp add: absorb_call absorb_invoke absorb_save absorb_run
             del: run.simps map_append list.map)
  finally show ?thesis .
qed

lemma shutdown_ready:
  assumes "ready w"
  shows "shutdown t e w =
         (Inl (case first_raise e (shutdown_calls t e) of None \<Rightarrow> SystemExit 0 | Some x \<Rightarrow> x),
          w\<lparr>trace := trace w @ logged e (shutdown_calls t e)\<rparr>)"
proof -
  have "shutdown t e w = run (map (call e) (shutdown_calls t e) @ [sys_exit 0]) w"
    using assms
    by (cases t) (simp_all add: halt_callback_calls clean_exit_calls sigterm_callback_def)
  then show ?thesis
    by (simp add: run_calls sys_exit_def split: option.split)
qed

lemma emitted_shutdown:
  "ready w \<Longrightarrow> emitted (shutdown t e) w = logged e (shutdown_calls t e)"
  by (simp add: emitted_def shutdown_ready)

lemma shutdown_steps_calls:
  "filter (\<lambda>c. \<not> is_Print c) (shutdown_calls t e) = shutdown_steps t e"
  by (cases t) (simp_all add: exit_calls_def shutdown_steps_def power_off_def)

lemma clean_exit_ready:
  "ready w \<Longrightarrow> clean_exit e w =
     (Inl (case first_raise e (exit_calls e) of None \<Rightarrow> SystemExit 0 | Some x \<Rightarrow> x),
      w\<lparr>trace := trace w @ logged e (exit_calls e)\<rparr>)"
  using shutdown_ready [of w Keyboard_interruption e] by simp

lemma clean_exit_raises: "\<exists>x w'. clean_exit e w = (Inl x, w')"
proof -
  have "clean_exit e = run ([call e (Print ''''),
      call e (Print ''Cleaning GPIO''),
      call e GPIO_cleanup,
      call e (Print ''Cleaning LCD''),
      invoke displayManager ''on_thread'' e (On_thread Terminate),
      call e (Print ''Saving current settings to cache''),
      save_current_settings e,
      call e (Print ''Exiting.'')] @ [sys_exit 0])"
    by (simp add: clean_exit_def)
  then show ?thesis by (simp only: run_exit_last)
qed

lemma clean_exit_no_subprocess: "only_calls {c. \<not> is_Subprocess_call c} (clean_exit e)"
  unfolding clean_exit_def
  by (intro only_calls_run)
     (simp add: only_calls_call only_calls_invoke only_calls_sys_exit only_calls_save)

lemma one_write: "length (filter is_Save_settings (shutdown_calls t e)) = 1"
  by (cases t) (simp_all add: exit_calls_def power_off_def)

subsection \<open>Callbacks and startup\<close>

lemma only_calls_volume_up: "only_calls UNIV (volume_up_callback e)"
proof (rule only_callsI)
  fix w
  have a: "only_calls UNIV (try_except
             (run [call e Ifaddresses_wlan0_addr,
                   call e (Print (''IP address : '' @ wlan0_addr e)),
                   invoke displayManager ''on_thread'' e
                     (On_thread (Display_ip_address (wlan0_addr e)))])
             (\<lambda>x. Some (run [])))"
    by (intro only_calls_try_except only_calls_run)
       (auto simp add: only_calls_call only_calls_invoke intro: only_calls_run)
  have b: "only_calls UNIV (invoke radioManager ''volume_up'' e Volume_up)"
    by (simp add: only_calls_invoke)
  show "\<exists>evs. snd (volume_up_callback e w) = w\<lparr>trace := trace w @ evs\<rparr> \<and> call_of ` set evs \<subseteq> UNIV"
    using a b by (simp add: volume_up_callback_def only_calls_def)
qed

lemma only_calls_halt: "only_calls UNIV (halt_callback e)"
  unfolding halt_callback_def clean_exit_and_shutdown_def
  by (intro only_calls_run ballI)
     (auto simp add: only_calls_call only_calls_invoke only_calls_sys_exit only_calls_save
        intro!: only_calls_run)

lemma volume_down_effect:
  "\<exists>evs. snd (volume_down_callback e w) = w\<lparr>ip_timer := time_time e, trace := trace w @ evs\<rparr>"
proof (cases "radioManager w")
  case None
  then show ?thesis
    by (intro exI [of _ "[]"]) (simp add: volume_down_callback_def invoke_def)
next
  case (Some rm)
  show ?thesis
  proof (cases "raises e Volume_down")
    case None
    with Some show ?thesis
      by (intro exI [of _ "[Done Volume_down]"])
         (simp add: volume_down_callback_def invoke_def call_def)
  next
    case (Some x)
    with \<open>radioManager w = Some rm\<close> show ?thesis
      by (intro exI [of _ "[Failed Volume_down x]"])
         (simp add: volume_down_callback_def invoke_def call_def)
  qed
qed

lemma dispatch_effect:
  "\<exists>evs. snd (dispatch b e w) =
     w\<lparr>ip_timer := (if b = Volume_down_callback then time_time e else ip_timer w),
       trace := trace w @ evs\<rparr>"
proof (cases b)
  case Volume_up_callback
  then show ?thesis using only_calls_volume_up [of e] by (auto simp: only_calls_def)
next
  case Volume_down_callback
  then show ?thesis using volume_down_effect [of e w] by simp
next
  case Next_radio_callback
  then show ?thesis
    using only_calls_invoke [of Next_radio UNIV radioManager "''next''" e]
    by (auto simp: only_calls_def next_radio_callback_def)
next
  case Previous_radio_callback
  then show ?thesis
    using only_calls_invoke [of Previous_radio UNIV radioManager "''previous''" e]
    by (auto simp: only_calls_def previous_radio_callback_def)
next
  case Halt_callback
  then show ?thesis using only_calls_halt [of e] by (auto simp: only_calls_def)
qed

lemma deliver_effect:
  "\<exists>evs. deliver ps w =
     w\<lparr>ip_timer := (case last_volume_down ps of None \<Rightarrow> ip_timer w | Some t \<Rightarrow> t),
       trace := trace w @ evs\<rparr>"
proof (induction ps arbitrary: w)
  case Nil
  show ?case by (intro exI [of _ "[]"]) simp
next
  case (Cons p ps)
  obtain b e where p: "p = (b, e)" by (cases p)
  obtain evs where evs: "snd (dispatch b e w) =
     w\<lparr>ip_timer := (if b = Volume_down_callback then time_time e else ip_timer w),
       trace := trace w @ evs\<rparr>"
    using dispatch_effect by blast
  obtain evs' where evs': "deliver ps (snd (dispatch b e w)) =
     (snd (dispatch b e w))\<lparr>ip_timer := (case last_volume_down ps of
           None \<Rightarrow> ip_timer (snd (dispatch b e w)) | Some t \<Rightarrow> t),
       trace := trace (snd (dispatch b e w)) @ evs'\<rparr>"
    using Cons.IH by blast
  show ?case
    unfolding p deliver.simps evs' unfolding evs
    by (intro exI [of _ "evs @ evs'"]) (simp split: option.split)
qed

lemma ip_timer_deliver:
  "ip_timer (deliver ps w) = (case last_volume_down ps of None \<Rightarrow> ip_timer w | Some t \<Rightarrow> t)"
proof -
  obtain evs where "deliver ps w =
     w\<lparr>ip_timer := (case last_volume_down ps of None \<Rightarrow> ip_timer w | Some t \<Rightarrow> t),
       trace := trace w @ evs\<rparr>"
    using deliver_effect by blast
  then show ?thesis by simp
qed

lemma managers_deliver:
  "radioManager (deliver ps w) = radioManager w"
  "displayManager (deliver ps w) = displayManager w"
proof -
  obtain evs where "deliver ps w =
     w\<lparr>ip_timer := (case last_volume_down ps of None \<Rightarrow> ip_timer w | Some t \<Rightarrow> t),
       trace := trace w @ evs\<rparr>"
    using deliver_effect by blast
  then show "radioManager (deliver ps w) = radioManager w"
    "displayManager (deliver ps w) = displayManager w" by simp_all
qed

lemma gesture_iff:
  "Ifaddresses_wlan0_addr \<in> call_of ` set (emitted (volume_up_callback e) w)
     \<longleftrightarrow> time_time e - ip_timer w < 4/10"
  by (simp add: volume_up_callback_def emitted_def try_except_def invoke_def call_def
        split: option.split)

lemma gesture_no_volume_up:
  "time_time e - ip_timer w < 4/10 \<Longrightarrow>
   Volume_up \<notin> call_of ` set (emitted (volume_up_callback e) w)"
  by (simp add: volume_up_callback_def emitted_def try_except_def invoke_def call_def
        split: option.split)

lemma ordinary_volume_up:
  "\<not> time_time e - ip_timer w < 4/10 \<Longrightarrow> radioManager w \<noteq> None \<Longrightarrow>
   map call_of (emitted (volume_up_callback e) w) = [Volume_up]"
  by (auto simp add: volume_up_callback_def emitted_def invoke_def call_def
        split: option.split)

lemma volume_down_calls:
  "radioManager w \<noteq> None \<Longrightarrow> map call_of (emitted (volume_down_callback e) w) = [Volume_down]"
  by (auto simp add: volume_down_callback_def emitted_def invoke_def call_def
        split: option.split)

lemma gesture_shows_address:
  assumes "time_time e - ip_timer w < 4/10" and "displayManager w \<noteq> None"
    and "raises e Ifaddresses_wlan0_addr = None"
    and "raises e (Print (''IP address : '' @ wlan0_addr e)) = None"
    and "raises e (On_thread (Display_ip_address (wlan0_addr e))) = None"
  shows "emitted (volume_up_callback e) w =
           [Done Ifaddresses_wlan0_addr, Done (Print (''IP address : '' @ wlan0_addr e)),
            Done (On_thread (Display_ip_address (wlan0_addr e)))]"
    and "fst (volume_up_callback e w) = Inr ()"
  using assms
  by (auto simp add: volume_up_callback_def emitted_def try_except_def invoke_def call_def)

lemma ip_timer_volume_down: "ip_timer (snd (volume_down_callback e w)) = time_time e"
  using volume_down_effect [of e w] by auto

lemma keeps_timer_init: "keeps_timer (init_radiobot e f)"
  unfolding init_radiobot_def configure_GPIO_def set_as_ready_def
  apply (intro keeps_timer_run ballI)
  apply (auto simp add: keeps_timer_call keeps_timer_invoke keeps_timer_sys_exit
        intro!: keeps_timer_run keeps_timer_try_except split: if_splits)
  apply (simp_all add: keeps_timer_def)
  done

lemma ip_timer_init: "ip_timer (snd (init_radiobot e f w)) = ip_timer w"
  using keeps_timer_init [of e f] by (simp add: keeps_timer_def)

subsection \<open>The foreground loop\<close>

lemma loop_body_take:
  assumes "ready w"
  shows "run (take k (loop_body e) @ ss) w = run (map (call e) (take k loop_calls) @ ss) w"
proof -
  have r: "radioManager w \<noteq> None" "playerManager w \<noteq> None"
    using assms by (simp_all add: ready_def)
  consider "k = 0" | "k = 1" | "k = 2" | "3 \<le> k" by linarith
  then show ?thesis
  proof cases
    case 1
    then show ?thesis by simp
  next
    case 2
    have "run (take k (loop_body e) @ ss) w =
          run (map (call e) [] @
               invoke radioManager ''check_radio_info'' e Check_radio_info # ss) w"
      using 2 by (simp add: loop_body_def)
    also have "\<dots> = run (map (call e) [Check_radio_info] @ ss) w"
      using r by (simp add: absorb_invoke del: run.simps map_append list.map)
    finally show ?thesis using 2 by (simp add: loop_calls_def)
  next
    case 3
    have "run (take k (loop_body e) @ ss) w =
          run (map (call e) [] @
               invoke radioManager ''check_radio_info'' e Check_radio_info #
               invoke playerManager ''update_player'' e Update_player # ss) w"
      using 3 by (simp add: loop_body_def numeral_2_eq_2)
    also have "\<dots> = run (map (call e) [Check_radio_info, Update_player] @ ss) w"
      using r by (simp add: absorb_invoke del: run.simps map_append list.map)
    finally show ?thesis using 3 by (simp add: loop_calls_def numeral_2_eq_2)
  next
    case 4
    have "run (take k (loop_body e) @ ss) w =
          run (map (call e) [] @
               invoke radioManager ''check_radio_info'' e Check_radio_info #
               invoke playerManager ''update_player'' e Update_player #
               call e (Time_sleep (1/20)) # ss) w"
      using 4 by (simp add: loop_body_def)
    also have "\<dots> = run (map (call e) [Check_radio_info, Update_player, Time_sleep (1/20)] @ ss) w"
      using r by (simp add: absorb_invoke absorb_call del: run.simps map_append list.map)
    finally show ?thesis using 4 by (simp add: loop_calls_def)
  qed
qed

lemma loop_body_calls:
  assumes "ready w"
  shows "run (loop_body e) w =
     (case first_raise e loop_calls of
        None \<Rightarrow> (Inr (), w\<lparr>trace := trace w @ logged e loop_calls\<rparr>)
      | Some x \<Rightarrow> (Inl x, w\<lparr>trace := trace w @ logged e loop_calls\<rparr>))"
proof -
  have "run (loop_body e) w = run (take 3 (loop_body e) @ []) w"
    by (simp add: loop_body_def)
  also have "\<dots> = run (map (call e) (take 3 loop_calls) @ []) w"
    using assms by (rule loop_body_take)
  also have "\<dots> = run (map (call e) loop_calls @ []) w"
    by (simp add: loop_calls_def)
  finally show ?thesis
    unfolding run_calls by (simp split: option.split)
qed

lemma finished_clean_exit_not_Returned: "fst (finished (clean_exit e w)) \<noteq> Returned"
proof -
  obtain x w' where "clean_exit e w = (Inl x, w')" using clean_exit_raises by blast
  then show ?thesis by simp
qed

lemma while_True_not_Returned: "fst (while_True ticks w) \<noteq> Returned"
proof (induction ticks arbitrary: w)
  case Nil
  show ?case by simp
next
  case (Cons t ts)
  obtain r w1 where it: "iteration t w = (r, w1)" by (cases "iteration t w")
  show ?case
  proof (cases r)
    case (Inl x)
    with it show ?thesis by simp
  next
    case (Inr u)
    with it Cons.IH [of w1] show ?thesis by simp
  qed
qed

lemma foreground_loop_not_Returned: "fst (foreground_loop ticks eh w) \<noteq> Returned"
proof -
  obtain r w1 where wt: "while_True ticks w = (r, w1)" by (cases "while_True ticks w")
  with while_True_not_Returned [of ticks w] have nr: "r \<noteq> Returned" by simp
  show ?thesis
  proof (cases "r = Raised KeyboardInterrupt")
    case True
    with wt show ?thesis
      by (simp add: foreground_loop_def finished_clean_exit_not_Returned)
  next
    case False
    with wt nr show ?thesis
      by (simp add: foreground_loop_def split: outcome.split exn.split)
  qed
qed

lemma passes_quietly_run:
  assumes "passes_quietly e"
  shows "first_raise e loop_calls = None" and "logged e loop_calls = pass_log"
  using assms by (simp_all add: passes_quietly_def loop_calls_def pass_log_def)

lemma quiet_prefix:
  assumes "ready w" and "\<forall>e\<in>set es. passes_quietly e"
  shows "while_True (map Quiet es @ ts) w =
         while_True ts (w\<lparr>trace := trace w @ passes_log (length es)\<rparr>)"
  using assms
proof (induction es arbitrary: w)
  case Nil
  show ?case by (simp add: passes_log_def)
next
  case (Cons e es)
  let ?w1 = "w\<lparr>trace := trace w @ pass_log\<rparr>"
  from Cons.prems have q: "passes_quietly e" by simp
  with Cons.prems(1) have it: "iteration (Quiet e) w = (Inr (), ?w1)"
    by (simp add: loop_body_calls passes_quietly_run)
  have "ready ?w1" using Cons.prems(1) by (simp add: ready_trace_update)
  with Cons.IH [of ?w1] Cons.prems(2)
  have "while_True (map Quiet es @ ts) ?w1 =
        while_True ts (?w1\<lparr>trace := trace ?w1 @ passes_log (length es)\<rparr>)"
    by simp
  with it show ?case by (simp add: passes_log_def)
qed

lemma pass_sigterm_split:
  assumes "ready w"
  shows "iteration (Sigterm k e) w =
     (case first_raise e (take k loop_calls) of
        None \<Rightarrow> run [sigterm_callback e, run (drop k (loop_body e))]
                  (w\<lparr>trace := trace w @ logged e (take k loop_calls)\<rparr>)
      | Some x \<Rightarrow> (Inl x, w\<lparr>trace := trace w @ logged e (take k loop_calls)\<rparr>))"
proof -
  let ?rest = "[sigterm_callback e, run (drop k (loop_body e))]"
  have "iteration (Sigterm k e) w = run (take k (loop_body e) @ ?rest) w"
    unfolding iteration.simps by (rule run_run)
  also have "\<dots> = run (map (call e) (take k loop_calls) @ ?rest) w"
    using assms by (rule loop_body_take)
  finally show ?thesis unfolding run_calls .
qed

lemma pass_raises:
  assumes "ready w" and "first_raise (tick_env t) (calls_before t) = Some x"
  shows "iteration t w =
         (Inl x, w\<lparr>trace := trace w @ logged (tick_env t) (calls_before t)\<rparr>)"
proof (cases t)
  case (Quiet e)
  with assms show ?thesis by (simp add: loop_body_calls)
next
  case (Sigterm k e)
  with assms show ?thesis by (simp add: pass_sigterm_split del: iteration.simps)
qed

lemma pass_sigterm:
  assumes "ready w" and "first_raise e (take k loop_calls) = None"
  shows "iteration (Sigterm k e) w =
         clean_exit e (w\<lparr>trace := trace w @ logged e (take k loop_calls)\<rparr>)"
proof -
  let ?w1 = "w\<lparr>trace := trace w @ logged e (take k loop_calls)\<rparr>"
  obtain y w2 where ce: "clean_exit e ?w1 = (Inl y, w2)"
    using clean_exit_raises by blast
  then have "run [sigterm_callback e, run (drop k (loop_body e))] ?w1 = (Inl y, w2)"
    by (simp add: sigterm_callback_def)
  with assms ce show ?thesis
    by (simp add: pass_sigterm_split del: iteration.simps run.simps)
qed

lemma foreground_loop_quiet:
  assumes "ready w" and "\<forall>e\<in>set es. passes_quietly e"
  shows "foreground_loop (map Quiet es) eh w =
         (Running, w\<lparr>trace := trace w @ passes_log (length es)\<rparr>)"
  using quiet_prefix [OF assms, of "[]"] by (simp add: foreground_loop_def)

lemma foreground_loop_interrupted:
  assumes "ready w" and "\<forall>e\<in>set es. passes_quietly e"
    and "first_raise (tick_env t) (calls_before t) = Some KeyboardInterrupt"
  shows "foreground_loop (map Quiet es @ t # rest) eh w =
         finished (clean_exit eh (w\<lparr>trace := trace w @ passes_log (length es) @
           logged (tick_env t) (calls_before t)\<rparr>))"
proof -
  let ?w1 = "w\<lparr>trace := trace w @ passes_log (length es)\<rparr>"
  have r1: "ready ?w1" using assms(1) by (simp add: ready_trace_update)
  have "while_True (map Quiet es @ t # rest) w = while_True (t # rest) ?w1"
    using assms(1,2) by (rule quiet_prefix)
  also have "\<dots> = (Raised KeyboardInterrupt,
       ?w1\<lparr>trace := trace ?w1 @ logged (tick_env t) (calls_before t)\<rparr>)"
    using pass_raises [OF r1 assms(3)] by simp
  finally show ?thesis by (simp add: foreground_loop_def)
qed

lemma foreground_loop_error:
  assumes "ready w" and "\<forall>e\<in>set es. passes_quietly e"
    and "first_raise (tick_env t) (calls_before t) = Some x" and "x \<noteq> KeyboardInterrupt"
  shows "foreground_loop (map Quiet es @ t # rest) eh w =
         (Raised x, w\<lparr>trace := trace w @ passes_log (length es) @
           logged (tick_env t) (calls_before t)\<rparr>)"
proof -
  let ?w1 = "w\<lparr>trace := trace w @ passes_log (length es)\<rparr>"
  have r1: "ready ?w1" using assms(1) by (simp add: ready_trace_update)
  have "while_True (map Quiet es @ t # rest) w = while_True (t # rest) ?w1"
    using assms(1,2) by (rule quiet_prefix)
  also have "\<dots> = (Raised x,
       ?w1\<lparr>trace := trace ?w1 @ logged (tick_env t) (calls_before t)\<rparr>)"
    using pass_raises [OF r1 assms(3)] by simp
  finally show ?thesis using assms(4)
    by (simp add: foreground_loop_def split: exn.split)
qed

lemma foreground_loop_sigterm:
  assumes "ready w" and "\<forall>e\<in>set es. passes_quietly e"
    and "first_raise e (take k loop_calls) = None"
  shows "foreground_loop (map Quiet es @ Sigterm k e # rest) eh w =
         (case clean_exit e (w\<lparr>trace := trace w @ passes_log (length es) @
                 logged e (take k loop_calls)\<rparr>) of
            (Inl KeyboardInterrupt, w') \<Rightarrow> finished (clean_exit eh w')
          | r \<Rightarrow> finished r)"
proof -
  let ?w1 = "w\<lparr>trace := trace w @ passes_log (length es)\<rparr>"
  let ?w2 = "w\<lparr>trace := trace w @ passes_log (length es) @ logged e (take k loop_calls)\<rparr>"
  have r1: "ready ?w1" using assms(1) by (simp add: ready_trace_update)
  obtain y w3 where ce: "clean_exit e ?w2 = (Inl y, w3)"
    using clean_exit_raises by blast
  have "while_True (map Quiet es @ Sigterm k e # rest) w = while_True (Sigterm k e # rest) ?w1"
    using assms(1,2) by (rule quiet_prefix)
  also have "\<dots> = (Raised y, w3)"
    using pass_sigterm [OF r1 assms(3)] ce by (simp del: iteration.simps)
  finally have wt: "while_True (map Quiet es @ Sigterm k e # rest) w = (Raised y, w3)" .
  show ?thesis
  proof (cases "y = KeyboardInterrupt")
    case True
    with wt ce show ?thesis by (simp add: foreground_loop_def)
  next
    case False
    with wt ce show ?thesis by (simp add: foreground_loop_def split: exn.split)
  qed
qed

subsection \<open>The example inputs\<close>

lemma ready_running_world: "ready running_world"
  by (simp add: ready_def running_world_def)

lemma quiet_returns: "raises quiet c = None"
  by (simp add: quiet_def)

lemma logged_cleanup_fails:
  "logged cleanup_fails (shutdown_calls Halt_button cleanup_fails) =
     [Done (Print ''Shutdown requested !''), Done (Print ''''), Done (Print ''Cleaning GPIO''),
      Failed GPIO_cleanup (Exception ''cleanup failed'')]"
  by (simp add: cleanup_fails_def exit_calls_def)

lemma first_raise_cleanup_fails:
  "first_raise cleanup_fails (shutdown_calls Halt_button cleanup_fails) =
     Some (Exception ''cleanup failed'')"
  by (simp add: cleanup_fails_def exit_calls_def)

lemma interrupted_run:
  "first_raise interrupted_at_exit (exit_calls interrupted_at_exit) = Some KeyboardInterrupt"
  "logged interrupted_at_exit (exit_calls interrupted_at_exit) =
     [Done (Print ''''), Done (Print ''Cleaning GPIO''), Done GPIO_cleanup,
      Done (Print ''Cleaning LCD''), Done (On_thread Terminate),
      Done (Print ''Saving current settings to cache''),
      Done Get_current_volume, Done Get_current_radio_indice,
      Done (Save_settings (PyInt 65) (PyInt 1)),
      Failed (Print ''Exiting.'') KeyboardInterrupt]"
  by (simp_all add: interrupted_at_exit_def exit_calls_def quiet_def)

lemma quiet_run:
  "first_raise quiet (exit_calls quiet) = None"
  "logged quiet (exit_calls quiet) =
     [Done (Print ''''), Done (Print ''Cleaning GPIO''), Done GPIO_cleanup,
      Done (Print ''Cleaning LCD''), Done (On_thread Terminate),
      Done (Print ''Saving current settings to cache''),
      Done Get_current_volume, Done Get_current_radio_indice,
      Done (Save_settings (PyInt 65) (PyInt 1)),
      Done (Print ''Exiting.'')]"
  by (simp_all add: exit_calls_def quiet_def)

lemma stream_error_pass:
  "first_raise stream_error loop_calls = Some (Exception ''stream error'')"
  "logged stream_error loop_calls = [Failed Check_radio_info (Exception ''stream error'')]"
  by (simp_all add: stream_error_def loop_calls_def)

lemma passes_quietly_quiet: "passes_quietly quiet"
  by (simp add: passes_quietly_def quiet_def)

lemma interrupted_pass:
  "first_raise interrupted_in_sleep loop_calls = Some KeyboardInterrupt"
  "logged interrupted_in_sleep loop_calls =
     [Done Check_radio_info, Done Update_player, Failed (Time_sleep (1/20)) KeyboardInterrupt]"
  by (simp_all add: interrupted_in_sleep_def loop_calls_def)

lemma sigterm_pass_quiet:
  "first_raise quiet (take 1 loop_calls) = None"
  "logged quiet (take 1 loop_calls) = [Done Check_radio_info]"
  by (simp_all add: quiet_def loop_calls_def)

section \<open>The shutdown sequence\<close>

text \<open>
  C1 says that a process-wide shutdown flag lets the sequence run at most once, so that the
  settings are written exactly once whatever pair of triggers arrives.  main.py has no such
  flag: the module-level variables are the four managers and the timer of the address
  gesture.  When SIGTERM arrives in the foreground loop its handler runs the sequence in the
  main thread; when Ctrl-C then arrives after the handler has saved the settings and before
  it has left through \<^verbatim>\<open>sys.exit(0)\<close>, the KeyboardInterrupt leaves the handler into
  the loop's \<^verbatim>\<open>except KeyboardInterrupt\<close>, which runs the sequence a second time.
\<close>

theorem settings_written_twice_counterexample:
  "fst (foreground_loop [Sigterm 0 interrupted_at_exit] quiet running_world) =
     Raised (SystemExit 0) \<and>
   settings_writes (emitted (foreground_loop [Sigterm 0 interrupted_at_exit] quiet)
     running_world) = 2"
  by (simp add: foreground_loop_def emitted_def sigterm_callback_def clean_exit_ready
        ready_running_world ready_trace_update interrupted_run quiet_run)

text \<open>
  C1 as amended.  Nothing guards the shutdown sequence against a second trigger.  One run of
  it, whatever the trigger, writes the settings at most once, and exactly once, ending in
  \<^verbatim>\<open>sys.exit(0)\<close>, when none of its calls raises.
\<close>

theorem single_run_writes_settings_once:
  "ready w \<Longrightarrow>
   settings_writes (emitted (shutdown t e) w) \<le> 1 \<and>
   ((\<forall>c. raises e c = None) \<longrightarrow>
      settings_writes (emitted (shutdown t e) w) = 1 \<and>
      fst (shutdown t e w) = Inl (SystemExit 0))"
proof (intro conjI impI)
  assume r: "ready w"
  show "settings_writes (emitted (shutdown t e) w) \<le> 1"
    using settings_writes_logged [of e "shutdown_calls t e"] r
    by (simp add: emitted_shutdown one_write)
next
  assume r: "ready w" and ok: "\<forall>c. raises e c = None"
  then have "logged e (shutdown_calls t e) = map Done (shutdown_calls t e)"
    by (simp add: logged_all_return)
  then show "settings_writes (emitted (shutdown t e) w) = 1"
    using r by (simp add: emitted_shutdown settings_writes_map_Done one_write)
next
  assume r: "ready w" and ok: "\<forall>c. raises e c = None"
  then have "first_raise e (shutdown_calls t e) = None"
    by (simp add: first_raise_None)
  then show "fst (shutdown t e w) = Inl (SystemExit 0)"
    using r by (simp add: shutdown_ready)
qed

theorem single_run_writes_settings_once_witness:
  "ready running_world \<and> (\<forall>c. raises quiet c = None) \<and>
   settings_writes (emitted (shutdown Termination_signal quiet) running_world) = 1 \<and>
   fst (shutdown Termination_signal quiet running_world) = Inl (SystemExit 0)"
  using single_run_writes_settings_once [of running_world Termination_signal quiet]
  by (simp add: ready_running_world quiet_returns del: shutdown.simps)

text \<open>
  C2.  Only the halt button requests the power-off of the device.  The procedure entered on
  SIGTERM or on a keyboard interruption never calls a subprocess, whatever the state of the
  module and whichever calls raise; when nothing raises it runs its steps and ends the
  process with \<^verbatim>\<open>sys.exit(0)\<close>, and the power-off request is in the log exactly for
  the halt button.
\<close>

theorem power_off_only_from_halt_button:
  "(Subprocess_call args \<in> call_of ` set (emitted (shutdown t e) w) \<longrightarrow> t = Halt_button) \<and>
   (ready w \<and> (\<forall>c. raises e c = None) \<longrightarrow>
      (Done power_off \<in> set (emitted (shutdown t e) w) \<longleftrightarrow> t = Halt_button) \<and>
      performed (emitted (shutdown t e) w) = shutdown_steps t e \<and>
      fst (shutdown t e w) = Inl (SystemExit 0))"
proof (intro conjI impI)
  assume a: "Subprocess_call args \<in> call_of ` set (emitted (shutdown t e) w)"
  show "t = Halt_button"
  proof (rule ccontr)
    assume "t \<noteq> Halt_button"
    then have "shutdown t e = clean_exit e"
      by (cases t) (simp_all add: sigterm_callback_def)
    moreover from a obtain ev where ev: "ev \<in> set (emitted (shutdown t e) w)"
        "call_of ev = Subprocess_call args"
      by auto
    ultimately have "\<not> is_Subprocess_call (call_of ev)"
      using only_calls_emitted [OF clean_exit_no_subprocess, of e w] by auto
    with ev show False by simp
  qed
next
  assume "ready w \<and> (\<forall>c. raises e c = None)"
  then have r: "ready w" and ok: "\<forall>c. raises e c = None" by simp_all
  from ok have "logged e (shutdown_calls t e) = map Done (shutdown_calls t e)"
    by (simp add: logged_all_return)
  with r have em: "emitted (shutdown t e) w = map Done (shutdown_calls t e)"
    by (simp add: emitted_shutdown)
  have "Done power_off \<in> set (map Done (shutdown_calls t e)) \<longleftrightarrow> t = Halt_button"
    by (cases t) (simp_all add: exit_calls_def power_off_def)
  then show "Done power_off \<in> set (emitted (shutdown t e) w) \<longleftrightarrow> t = Halt_button"
    by (simp only: em)
  show "performed (emitted (shutdown t e) w) = shutdown_steps t e"
    by (simp add: em performed_map_Done shutdown_steps_calls)
  from ok have "first_raise e (shutdown_calls t e) = None"
    by (simp add: first_raise_None)
  then show "fst (shutdown t e w) = Inl (SystemExit 0)"
    using r by (simp add: shutdown_ready)
qed

theorem power_off_only_from_halt_button_witness:
  "ready running_world \<and> (\<forall>c. raises quiet c = None) \<and>
   Done power_off \<in> set (emitted (shutdown Halt_button quiet) running_world) \<and>
   Done power_off \<notin> set (emitted (shutdown Termination_signal quiet) running_world) \<and>
   Done power_off \<notin> set (emitted (shutdown Keyboard_interruption quiet) running_world) \<and>
   performed (emitted (shutdown Termination_signal quiet) running_world) =
     shutdown_steps Termination_signal quiet \<and>
   fst (shutdown Termination_signal quiet running_world) = Inl (SystemExit 0) \<and>
   fst (shutdown Keyboard_interruption quiet running_world) = Inl (SystemExit 0)"
  using power_off_only_from_halt_button [of "[]" Halt_button quiet running_world]
    power_off_only_from_halt_button [of "[]" Termination_signal quiet running_world]
    power_off_only_from_halt_button [of "[]" Keyboard_interruption quiet running_world]
  by (simp add: ready_running_world quiet_returns del: shutdown.simps)

text \<open>
  C4.  Every run of the shutdown sequence performs its steps in this order: release the GPIO
  resources, terminate the display, read the volume and the station index through the
  accessors of the radio manager and persist that pair, and only then request the power-off
  (halt button) and end the process.  With the managers assigned, the steps a run performs
  are always an initial part of that list, and the whole list, ending in
  \<^verbatim>\<open>sys.exit(0)\<close>, when no call raises.
\<close>

theorem shutdown_steps_in_order:
  "ready w \<Longrightarrow>
   prefix (performed (emitted (shutdown t e) w)) (shutdown_steps t e) \<and>
   ((\<forall>c. raises e c = None) \<longrightarrow>
      performed (emitted (shutdown t e) w) = shutdown_steps t e \<and>
      fst (shutdown t e w) = Inl (SystemExit 0))"
proof (intro conjI impI)
  assume r: "ready w"
  show "prefix (performed (emitted (shutdown t e) w)) (shutdown_steps t e)"
    using performed_logged [of e "shutdown_calls t e"] r
    by (simp add: emitted_shutdown shutdown_steps_calls)
next
  assume r: "ready w" and ok: "\<forall>c. raises e c = None"
  then have "logged e (shutdown_calls t e) = map Done (shutdown_calls t e)"
    by (simp add: logged_all_return)
  then show "performed (emitted (shutdown t e) w) = shutdown_steps t e"
    using r by (simp add: emitted_shutdown performed_map_Done shutdown_steps_calls)
next
  assume r: "ready w" and ok: "\<forall>c. raises e c = None"
  then have "first_raise e (shutdown_calls t e) = None"
    by (simp add: first_raise_None)
  then show "fst (shutdown t e w) = Inl (SystemExit 0)"
    using r by (simp add: shutdown_ready)
qed

theorem shutdown_steps_in_order_witness:
  "ready running_world \<and> (\<forall>c. raises quiet c = None) \<and>
   performed (emitted (shutdown Halt_button quiet) running_world) =
     [GPIO_cleanup, On_thread Terminate, Get_current_volume, Get_current_radio_indice,
      Save_settings (PyInt 65) (PyInt 1),
      Subprocess_call [''sudo'', ''shutdown'', ''-h'', ''now'']] \<and>
   fst (shutdown Halt_button quiet running_world) = Inl (SystemExit 0)"
  using shutdown_steps_in_order [of running_world Halt_button quiet]
  by (simp add: ready_running_world quiet_returns shutdown_steps_def power_off_def)
     (simp add: quiet_def)

text \<open>
  C5 says that a step that raises does not keep the remaining steps from running.  The
  shutdown procedures catch nothing: when \<^verbatim>\<open>GPIO.cleanup()\<close> raises after the
  halt button, the display is not terminated, the settings are not saved, the power-off is
  not requested and the exception leaves the procedure.
\<close>

theorem shutdown_step_failure_counterexample:
  "fst (shutdown Halt_button cleanup_fails running_world) = Inl (Exception ''cleanup failed'') \<and>
   emitted (shutdown Halt_button cleanup_fails) running_world =
     [Done (Print ''Shutdown requested !''), Done (Print ''''), Done (Print ''Cleaning GPIO''),
      Failed GPIO_cleanup (Exception ''cleanup failed'')]"
  by (simp add: shutdown_ready emitted_shutdown ready_running_world logged_cleanup_fails
        first_raise_cleanup_fails del: shutdown.simps shutdown_calls.simps)

text \<open>
  C5 as amended.  An error raised by a step of the shutdown sequence is not caught: the
  step that raised is the last thing the run does, and its exception is what the procedure
  ends with, in place of the final action.  The final action is reached, after all the
  steps, when no call raises.
\<close>

theorem shutdown_step_failure_aborts:
  "ready w \<Longrightarrow>
   (Failed c x \<in> set (emitted (shutdown t e) w) \<longrightarrow>
      fst (shutdown t e w) = Inl x \<and> last (emitted (shutdown t e) w) = Failed c x) \<and>
   ((\<forall>c. raises e c = None) \<longrightarrow>
      fst (shutdown t e w) = Inl (SystemExit 0) \<and>
      performed (emitted (shutdown t e) w) = shutdown_steps t e)"
proof (intro conjI impI)
  assume r: "ready w" and f: "Failed c x \<in> set (emitted (shutdown t e) w)"
  from f r have "Failed c x \<in> set (logged e (shutdown_calls t e))"
    by (simp add: emitted_shutdown)
  then have *: "first_raise e (shutdown_calls t e) = Some x \<and>
      last (logged e (shutdown_calls t e)) = Failed c x"
    by (rule logged_Failed)
  show "fst (shutdown t e w) = Inl x"
    using r * by (simp add: shutdown_ready)
  show "last (emitted (shutdown t e) w) = Failed c x"
    using r * by (simp add: emitted_shutdown)
next
  assume r: "ready w" and ok: "\<forall>c. raises e c = None"
  then have "first_raise e (shutdown_calls t e) = None"
    by (simp add: first_raise_None)
  then show "fst (shutdown t e w) = Inl (SystemExit 0)"
    using r by (simp add: shutdown_ready)
  from ok have "logged e (shutdown_calls t e) = map Done (shutdown_calls t e)"
    by (simp add: logged_all_return)
  then show "performed (emitted (shutdown t e) w) = shutdown_steps t e"
    using r by (simp add: emitted_shutdown performed_map_Done shutdown_steps_calls)
qed

theorem shutdown_step_failure_aborts_witness:
  "ready running_world \<and>
   Failed GPIO_cleanup (Exception ''cleanup failed'')
     \<in> set (emitted (shutdown Halt_button cleanup_fails) running_world) \<and>
   fst (shutdown Halt_button cleanup_fails running_world) = Inl (Exception ''cleanup failed'') \<and>
   last (emitted (shutdown Halt_button cleanup_fails) running_world) =
     Failed GPIO_cleanup (Exception ''cleanup failed'') \<and>
   (\<forall>c. raises quiet c = None) \<and>
   fst (shutdown Termination_signal quiet running_world) = Inl (SystemExit 0) \<and>
   performed (emitted (shutdown Termination_signal quiet) running_world) =
     [GPIO_cleanup, On_thread Terminate, Get_current_volume, Get_current_radio_indice,
      Save_settings (PyInt 65) (PyInt 1)]"
proof -
  have m: "Failed GPIO_cleanup (Exception ''cleanup failed'')
     \<in> set (emitted (shutdown Halt_button cleanup_fails) running_world)"
    by (simp add: emitted_shutdown ready_running_world logged_cleanup_fails
          del: shutdown.simps shutdown_calls.simps)
  have q: "shutdown_steps Termination_signal quiet =
     [GPIO_cleanup, On_thread Terminate, Get_current_volume, Get_current_radio_indice,
      Save_settings (PyInt 65) (PyInt 1)]"
    by (simp add: shutdown_steps_def quiet_def)
  show ?thesis
    using shutdown_step_failure_aborts [OF ready_running_world,
        of GPIO_cleanup "Exception ''cleanup failed''" Halt_button cleanup_fails]
      shutdown_step_failure_aborts [OF ready_running_world,
        of GPIO_cleanup "Exception ''cleanup failed''" Termination_signal quiet] m
    by (simp add: ready_running_world quiet_returns q del: shutdown.simps)
qed

section \<open>The input dispatcher\<close>

text \<open>
  C3.  A volume-up press is taken as the show-network-address gesture (the address of wlan0
  is looked up) if and only if the clock reading minus the reading recorded at the last
  volume-down press is strictly less than 0.4 s.  When the gesture fires and nothing fails,
  the address is looked up, printed and handed to the display, and that is all the callback
  does; \<^verbatim>\<open>volume_up()\<close> is never called in the gesture.  Otherwise
  \<^verbatim>\<open>volume_up()\<close> is the one call made.  A volume-down press records the clock
  reading in \<^verbatim>\<open>ip_timer\<close>, whatever happens afterwards, and calls
  \<^verbatim>\<open>volume_down()\<close>.
\<close>

theorem double_press_gesture:
  "(last_volume_down ps = Some t \<longrightarrow>
      (Ifaddresses_wlan0_addr \<in> call_of ` set (emitted (volume_up_callback e) (deliver ps w))
         \<longleftrightarrow> time_time e - t < 4/10)) \<and>
   (Ifaddresses_wlan0_addr \<in> call_of ` set (emitted (volume_up_callback e) w)
      \<longleftrightarrow> time_time e - ip_timer w < 4/10) \<and>
   (time_time e - ip_timer w < 4/10 \<and> displayManager w \<noteq> None \<and>
    raises e Ifaddresses_wlan0_addr = None \<and>
    raises e (Print (''IP address : '' @ wlan0_addr e)) = None \<and>
    raises e (On_thread (Display_ip_address (wlan0_addr e))) = None \<longrightarrow>
      emitted (volume_up_callback e) w =
        [Done Ifaddresses_wlan0_addr, Done (Print (''IP address : '' @ wlan0_addr e)),
         Done (On_thread (Display_ip_address (wlan0_addr e)))] \<and>
      fst (volume_up_callback e w) = Inr ()) \<and>
   (time_time e - ip_timer w < 4/10 \<longrightarrow>
      Volume_up \<notin> call_of ` set (emitted (volume_up_callback e) w)) \<and>
   (\<not> time_time e - ip_timer w < 4/10 \<and> radioManager w \<noteq> None \<longrightarrow>
      map call_of (emitted (volume_up_callback e) w) = [Volume_up]) \<and>
   ip_timer (snd (volume_down_callback e w)) = time_time e \<and>
   (radioManager w \<noteq> None \<longrightarrow>
      map call_of (emitted (volume_down_callback e) w) = [Volume_down])"
proof (intro conjI impI)
  assume "last_volume_down ps = Some t"
  then have "ip_timer (deliver ps w) = t" by (simp add: ip_timer_deliver)
  then show "Ifaddresses_wlan0_addr \<in> call_of ` set (emitted (volume_up_callback e) (deliver ps w))
         \<longleftrightarrow> time_time e - t < 4/10"
    using gesture_iff [of e "deliver ps w"] by simp
next
  show "Ifaddresses_wlan0_addr \<in> call_of ` set (emitted (volume_up_callback e) w)
      \<longleftrightarrow> time_time e - ip_timer w < 4/10"
    by (rule gesture_iff)
next
  assume a: "time_time e - ip_timer w < 4/10 \<and> displayManager w \<noteq> None \<and>
    raises e Ifaddresses_wlan0_addr = None \<and>
    raises e (Print (''IP address : '' @ wlan0_addr e)) = None \<and>
    raises e (On_thread (Display_ip_address (wlan0_addr e))) = None"
  then show "emitted (volume_up_callback e) w =
        [Done Ifaddresses_wlan0_addr, Done (Print (''IP address : '' @ wlan0_addr e)),
         Done (On_thread (Display_ip_address (wlan0_addr e)))]"
    by (intro gesture_shows_address) simp_all
  from a show "fst (volume_up_callback e w) = Inr ()"
    by (intro gesture_shows_address) simp_all
next
  assume "time_time e - ip_timer w < 4/10"
  then show "Volume_up \<notin> call_of ` set (emitted (volume_up_callback e) w)"
    by (rule gesture_no_volume_up)
next
  assume "\<not> time_time e - ip_timer w < 4/10 \<and> radioManager w \<noteq> None"
  then show "map call_of (emitted (volume_up_callback e) w) = [Volume_up]"
    by (simp add: ordinary_volume_up)
next
  show "ip_timer (snd (volume_down_callback e w)) = time_time e"
    by (rule ip_timer_volume_down)
next
  assume "radioManager w \<noteq> None"
  then show "map call_of (emitted (volume_down_callback e) w) = [Volume_down]"
    by (rule volume_down_calls)
qed

theorem double_press_gesture_witness:
  "last_volume_down [(Volume_down_callback, quiet)] = Some 1700000000 \<and>
   Ifaddresses_wlan0_addr \<in> call_of ` set
     (emitted (volume_up_callback (quiet\<lparr>time_time := 1700000000 + 3/10\<rparr>))
        (deliver [(Volume_down_callback, quiet)] running_world)) \<and>
   emitted (volume_up_callback (quiet\<lparr>time_time := 1700000000 + 3/10\<rparr>))
        (deliver [(Volume_down_callback, quiet)] running_world) =
     [Done Ifaddresses_wlan0_addr, Done (Print ''IP address : 192.168.1.20''),
      Done (On_thread (Display_ip_address ''192.168.1.20''))] \<and>
   Ifaddresses_wlan0_addr \<notin> call_of ` set
     (emitted (volume_up_callback (quiet\<lparr>time_time := 1700000000 + 5/10\<rparr>))
        (deliver [(Volume_down_callback, quiet)] running_world)) \<and>
   map call_of (emitted (volume_up_callback (quiet\<lparr>time_time := 1700000000 + 5/10\<rparr>))
        (deliver [(Volume_down_callback, quiet)] running_world)) = [Volume_up] \<and>
   map call_of (emitted (volume_down_callback quiet) running_world) = [Volume_down]"
proof -
  let ?w = "deliver [(Volume_down_callback, quiet)] running_world"
  let ?up = "quiet\<lparr>time_time := 1700000000 + 3/10\<rparr>"
  have l: "last_volume_down [(Volume_down_callback, quiet)] = Some 1700000000"
    by (simp add: quiet_def)
  have t: "ip_timer ?w = 1700000000"
    by (simp only: ip_timer_deliver l option.case)
  have r: "radioManager ?w \<noteq> None" "radioManager running_world \<noteq> None"
    "displayManager ?w \<noteq> None"
    by (simp_all only: managers_deliver) (simp_all add: running_world_def)
  have q: "raises ?up Ifaddresses_wlan0_addr = None"
    "wlan0_addr ?up = ''192.168.1.20''"
    "raises ?up (Print (''IP address : '' @ ''192.168.1.20'')) = None"
    "raises ?up (On_thread (Display_ip_address ''192.168.1.20'')) = None"
    "time_time ?up = 1700000000 + 3/10"
    by (simp_all add: quiet_def)
  show ?thesis
    using double_press_gesture [of "[(Volume_down_callback, quiet)]" 1700000000
        "quiet\<lparr>time_time := 1700000000 + 3/10\<rparr>" running_world]
      double_press_gesture [of "[(Volume_down_callback, quiet)]" 1700000000
        "quiet\<lparr>time_time := 1700000000 + 5/10\<rparr>" running_world]
      double_press_gesture [of "[]" 0 "quiet\<lparr>time_time := 1700000000 + 3/10\<rparr>" ?w]
      double_press_gesture [of "[]" 0 "quiet\<lparr>time_time := 1700000000 + 5/10\<rparr>" ?w]
      double_press_gesture [of "[]" 0 quiet running_world]
      l t r q
    by (simp del: deliver.simps last_volume_down.simps)
qed

text \<open>
  C9.  On a volume-up press taken as the gesture, a failure of the address lookup or of the
  push to the display is swallowed: the callback returns normally, the log ends with the
  call that failed, and the display command is in the log as done only if both the lookup
  and the push returned.
\<close>

theorem gesture_failure_swallowed:
  "time_time e - ip_timer w < 4/10 \<Longrightarrow>
   fst (volume_up_callback e w) = Inr () \<and>
   (raises e Ifaddresses_wlan0_addr = Some x \<longrightarrow>
      emitted (volume_up_callback e) w = [Failed Ifaddresses_wlan0_addr x]) \<and>
   (raises e Ifaddresses_wlan0_addr = None \<and>
    raises e (Print (''IP address : '' @ wlan0_addr e)) = None \<and>
    displayManager w \<noteq> None \<and>
    raises e (On_thread (Display_ip_address (wlan0_addr e))) = Some x \<longrightarrow>
      emitted (volume_up_callback e) w =
        [Done Ifaddresses_wlan0_addr, Done (Print (''IP address : '' @ wlan0_addr e)),
         Failed (On_thread (Display_ip_address (wlan0_addr e))) x]) \<and>
   (Done (On_thread cmd) \<in> set (emitted (volume_up_callback e) w) \<longrightarrow>
      raises e Ifaddresses_wlan0_addr = None \<and> raises e (On_thread cmd) = None)"
proof (intro conjI impI)
  assume g: "time_time e - ip_timer w < 4/10"
  show "fst (volume_up_callback e w) = Inr ()"
    using g
    by (simp add: volume_up_callback_def try_except_def invoke_def call_def
          split: option.split)
  show "emitted (volume_up_callback e) w = [Failed Ifaddresses_wlan0_addr x]"
    if "raises e Ifaddresses_wlan0_addr = Some x"
    using g that
    by (simp add: volume_up_callback_def emitted_def try_except_def call_def)
  show "emitted (volume_up_callback e) w =
        [Done Ifaddresses_wlan0_addr, Done (Print (''IP address : '' @ wlan0_addr e)),
         Failed (On_thread (Display_ip_address (wlan0_addr e))) x]"
    if "raises e Ifaddresses_wlan0_addr = None \<and>
    raises e (Print (''IP address : '' @ wlan0_addr e)) = None \<and>
    displayManager w \<noteq> None \<and>
    raises e (On_thread (Display_ip_address (wlan0_addr e))) = Some x"
    using g that
    by (auto simp add: volume_up_callback_def emitted_def try_except_def invoke_def call_def)
  show "raises e Ifaddresses_wlan0_addr = None"
    if "Done (On_thread cmd) \<in> set (emitted (volume_up_callback e) w)"
    using g that
    by (auto simp add: volume_up_callback_def emitted_def try_except_def invoke_def call_def
          split: option.splits)
  show "raises e (On_thread cmd) = None"
    if "Done (On_thread cmd) \<in> set (emitted (volume_up_callback e) w)"
    using g that
    by (auto simp add: volume_up_callback_def emitted_def try_except_def invoke_def call_def
          split: option.splits)
qed

theorem gesture_failure_swallowed_witness:
  "time_time lookup_fails - ip_timer (running_world\<lparr>ip_timer := 1700000000 - 3/10\<rparr>) < 4/10 \<and>
   raises lookup_fails Ifaddresses_wlan0_addr = Some (Exception ''no wlan0'') \<and>
   fst (volume_up_callback lookup_fails (running_world\<lparr>ip_timer := 1700000000 - 3/10\<rparr>))
     = Inr () \<and>
   emitted (volume_up_callback lookup_fails) (running_world\<lparr>ip_timer := 1700000000 - 3/10\<rparr>)
     = [Failed Ifaddresses_wlan0_addr (Exception ''no wlan0'')] \<and>
   raises push_fails (On_thread (Display_ip_address (wlan0_addr push_fails)))
     = Some (Exception ''display gone'') \<and>
   fst (volume_up_callback push_fails (running_world\<lparr>ip_timer := 1700000000 - 3/10\<rparr>))
     = Inr () \<and>
   emitted (volume_up_callback push_fails) (running_world\<lparr>ip_timer := 1700000000 - 3/10\<rparr>)
     = [Done Ifaddresses_wlan0_addr, Done (Print ''IP address : 192.168.1.20''),
        Failed (On_thread (Display_ip_address ''192.168.1.20'')) (Exception ''display gone'')]"
proof -
  let ?w = "running_world\<lparr>ip_timer := 1700000000 - 3/10\<rparr>"
  have g: "time_time lookup_fails - ip_timer ?w < 4/10" "time_time push_fails - ip_timer ?w < 4/10"
    by (simp_all add: lookup_fails_def push_fails_def quiet_def)
  have l: "raises lookup_fails Ifaddresses_wlan0_addr = Some (Exception ''no wlan0'')"
    by (simp add: lookup_fails_def)
  have p: "raises push_fails Ifaddresses_wlan0_addr = None"
    "wlan0_addr push_fails = ''192.168.1.20''"
    "raises push_fails (Print (''IP address : '' @ ''192.168.1.20'')) = None"
    "raises push_fails (On_thread (Display_ip_address ''192.168.1.20''))
       = Some (Exception ''display gone'')"
    "displayManager ?w \<noteq> None"
    by (simp_all add: push_fails_def quiet_def running_world_def)
  show ?thesis
    using gesture_failure_swallowed [OF g(1), of "Exception ''no wlan0''"] l
      gesture_failure_swallowed [OF g(2), of "Exception ''display gone''"] p g
    by simp
qed

text \<open>
  C10.  \<^verbatim>\<open>ip_timer\<close> is 0 when the module is loaded and still 0 after startup, and
  only the volume-down callback assigns it.  As long as no volume-down press has been
  delivered, a volume-up press never starts the address lookup and calls
  \<^verbatim>\<open>volume_up()\<close>, for every clock reading of at least 0.4 s, the clock being the
  number of seconds since 1970.
\<close>

theorem no_gesture_before_first_volume_down:
  "ip_timer module_globals = 0 \<and>
   ip_timer (snd (init_radiobot e0 f module_globals)) = 0 \<and>
   (ip_timer w = 0 \<and> last_volume_down ps = None \<and> 4/10 \<le> time_time e \<longrightarrow>
      Ifaddresses_wlan0_addr \<notin> call_of ` set (emitted (volume_up_callback e) (deliver ps w)) \<and>
      (radioManager w \<noteq> None \<longrightarrow>
         map call_of (emitted (volume_up_callback e) (deliver ps w)) = [Volume_up]))"
proof (intro conjI impI)
  show "ip_timer module_globals = 0" by (simp add: module_globals_def)
  then show "ip_timer (snd (init_radiobot e0 f module_globals)) = 0"
    by (simp add: ip_timer_init)
next
  assume a: "ip_timer w = 0 \<and> last_volume_down ps = None \<and> 4/10 \<le> time_time e"
  then have t: "ip_timer (deliver ps w) = 0" by (simp add: ip_timer_deliver)
  with a have n: "\<not> time_time e - ip_timer (deliver ps w) < 4/10" by simp
  then show "Ifaddresses_wlan0_addr \<notin> call_of ` set (emitted (volume_up_callback e) (deliver ps w))"
    using gesture_iff [of e "deliver ps w"] by simp
  assume "radioManager w \<noteq> None"
  then have "radioManager (deliver ps w) \<noteq> None" by (simp add: managers_deliver)
  with n show "map call_of (emitted (volume_up_callback e) (deliver ps w)) = [Volume_up]"
    by (rule ordinary_volume_up)
qed

theorem no_gesture_before_first_volume_down_witness:
  "ip_timer running_world = 0 \<and>
   last_volume_down [(Next_radio_callback, quiet), (Volume_up_callback, quiet)] = None \<and>
   4/10 \<le> time_time quiet \<and> radioManager running_world \<noteq> None \<and>
   Ifaddresses_wlan0_addr \<notin> call_of ` set (emitted (volume_up_callback quiet)
      (deliver [(Next_radio_callback, quiet), (Volume_up_callback, quiet)] running_world)) \<and>
   map call_of (emitted (volume_up_callback quiet)
      (deliver [(Next_radio_callback, quiet), (Volume_up_callback, quiet)] running_world))
     = [Volume_up]"
proof -
  have h: "ip_timer running_world = 0" "radioManager running_world \<noteq> None"
    "4/10 \<le> time_time quiet"
    by (simp_all add: running_world_def quiet_def)
  have l: "last_volume_down [(Next_radio_callback, quiet), (Volume_up_callback, quiet)] = None"
    by simp
  show ?thesis
    using no_gesture_before_first_volume_down [of quiet "''radiobot.json''" running_world
        "[(Next_radio_callback, quiet), (Volume_up_callback, quiet)]" quiet] h l
    by (simp del: deliver.simps last_volume_down.simps)
qed

section \<open>Startup\<close>

text \<open>
  C6 says that a configuration that fails to load ends the process with a non-zero status
  before any hardware is armed.  \<^verbatim>\<open>init_radiobot\<close> calls \<^verbatim>\<open>configure_GPIO\<close>
  before it touches the configuration: when the file does not validate the process ends
  with status 2, and the listeners of the four buttons have been added by then.
\<close>

theorem config_failure_counterexample:
  "fst (main config_invalid ''radiobot.json'' [] quiet module_globals) = Raised (SystemExit 2) \<and>
   performed (emitted (main config_invalid ''radiobot.json'' [] quiet) module_globals) =
     Signal_SIGTERM # button_listeners @ [ConfigLoader_new ''radiobot.json'']"
  by (simp add: main_def init_radiobot_def configure_GPIO_def try_except_def
        invoke_def call_def sys_exit_def emitted_def button_listeners_def
        config_invalid_def module_globals_def)

text \<open>
  C6 as amended.  When constructing the loader or parsing the file raises an exception
  (and the console and the GPIO library do not), the process exits with status 2.  By then
  the SIGTERM handler and the listeners of the four buttons are set and nothing else has
  been done: the display, the player and the radio manager are not constructed, and the
  ready pin, which becomes the halt input, is not touched.
\<close>

theorem config_failure_exits:
  assumes "raises e (ConfigLoader_new f) = Some x \<or>
           raises e (ConfigLoader_new f) = None \<and> raises e Parse_config_file = Some x"
    and "is_Exception x"
    and "\<forall>c. c \<noteq> ConfigLoader_new f \<and> c \<noteq> Parse_config_file \<longrightarrow> raises e c = None"
  shows "fst (main e f ticks eh w) = Raised (SystemExit 2) \<and>
         exit_status (SystemExit 2) \<noteq> 0 \<and>
         performed (emitted (main e f ticks eh) w) =
           Signal_SIGTERM # button_listeners @
             (if raises e (ConfigLoader_new f) = None then [ConfigLoader_new f] else []) \<and>
         displayManager (snd (main e f ticks eh w)) = displayManager w \<and>
         playerManager (snd (main e f ticks eh w)) = playerManager w \<and>
         radioManager (snd (main e f ticks eh w)) = radioManager w"
proof -
  have ok: "raises e c = None" if "c \<noteq> ConfigLoader_new f" "c \<noteq> Parse_config_file" for c
    using assms(3) that by simp
  have pre: "raises e (Print ''Radiobot (v1.0)'') = None"
    "raises e (Print ''Written by Chuck182'') = None"
    "raises e (Print '''') = None"
    "raises e Signal_SIGTERM = None"
    "raises e GPIO_setmode_BCM = None"
    "raises e (GPIO_setup_IN 27 PUD_DOWN) = None"
    "raises e (GPIO_setup_IN 23 PUD_DOWN) = None"
    "raises e (GPIO_setup_IN 24 PUD_DOWN) = None"
    "raises e (GPIO_setup_IN 25 PUD_DOWN) = None"
    "raises e (GPIO_add_event_detect 27 RISING Volume_up_callback 200) = None"
    "raises e (GPIO_add_event_detect 23 RISING Volume_down_callback 200) = None"
    "raises e (GPIO_add_event_detect 24 RISING Next_radio_callback 200) = None"
    "raises e (GPIO_add_event_detect 25 RISING Previous_radio_callback 200) = None"
    "raises e (Print (''Invalid configuration : '' @ str x)) = None"
    "raises e (Print ''Exciting.'') = None"
    by (simp_all add: ok)
  from assms(1) show ?thesis
  proof
    assume "raises e (ConfigLoader_new f) = Some x"
    with pre assms(2) show ?thesis
      by (simp add: main_def init_radiobot_def configure_GPIO_def try_except_def
            call_def sys_exit_def emitted_def button_listeners_def)
  next
    assume "raises e (ConfigLoader_new f) = None \<and> raises e Parse_config_file = Some x"
    with pre assms(2) show ?thesis
      by (simp add: main_def init_radiobot_def configure_GPIO_def try_except_def
            invoke_def call_def sys_exit_def emitted_def button_listeners_def)
  qed
qed

theorem config_failure_exits_witness:
  "raises config_invalid (ConfigLoader_new ''radiobot.json'') = None \<and>
   raises config_invalid Parse_config_file = Some (Exception ''missing key'') \<and>
   is_Exception (Exception ''missing key'') \<and>
   raises config_invalid (GPIO_add_event_detect 27 RISING Volume_up_callback 200) = None \<and>
   fst (main config_invalid ''radiobot.json'' [] quiet module_globals) = Raised (SystemExit 2) \<and>
   performed (emitted (main config_invalid ''radiobot.json'' [] quiet) module_globals) =
     Signal_SIGTERM # button_listeners @ [ConfigLoader_new ''radiobot.json'']"
proof -
  have h: "raises config_invalid (ConfigLoader_new ''radiobot.json'') = None"
    "raises config_invalid Parse_config_file = Some (Exception ''missing key'')"
    "\<forall>c. c \<noteq> ConfigLoader_new ''radiobot.json'' \<and> c \<noteq> Parse_config_file
      \<longrightarrow> raises config_invalid c = None"
    by (simp_all add: config_invalid_def)
  show ?thesis
    using config_failure_exits [of config_invalid "''radiobot.json''"
        "Exception ''missing key''" "[]" quiet module_globals] h
    by simp
qed

text \<open>
  C8.  In a startup where no call raises, the managers are constructed, the radio manager
  with the station index of the configuration; then pin 4 is set as an output and driven
  low, half a second passes, the pin is set as an input again and the halt listener is
  added to it; and only then is the first station started.
\<close>

theorem startup_order:
  "(\<forall>c. raises e c = None) \<Longrightarrow>
   fst (init_radiobot e f w) = Inr () \<and>
   emitted (init_radiobot e f) w =
     map Done (button_listeners @
       [ConfigLoader_new f, Parse_config_file, Print ''Configuration file loaded successfully'',
        Serial_new (dm_serial (the_display_manager e)),
        DisplayManager_new (the_display_manager e), DisplayManager_start,
        PlayerManager_new (the_player_manager e),
        RadioManager_new (the_radio_manager e)] @
       ready_signal @ [Play_radio]) \<and>
   radioManager (snd (init_radiobot e f w)) = Some (the_radio_manager e) \<and>
   rm_radio_indice (the_radio_manager e) = radio_indice (attrs e)"
  by (simp add: init_radiobot_def configure_GPIO_def set_as_ready_def try_except_def
        invoke_def call_def emitted_def button_listeners_def ready_signal_def
        the_radio_manager_def)

theorem startup_order_witness:
  "(\<forall>c. raises quiet c = None) \<and>
   fst (init_radiobot quiet ''radiobot.json'' module_globals) = Inr () \<and>
   emitted (init_radiobot quiet ''radiobot.json'') module_globals =
     map Done (button_listeners @
       [ConfigLoader_new ''radiobot.json'', Parse_config_file,
        Print ''Configuration file loaded successfully'',
        Serial_new (dm_serial (the_display_manager quiet)),
        DisplayManager_new (the_display_manager quiet), DisplayManager_start,
        PlayerManager_new (the_player_manager quiet),
        RadioManager_new (the_radio_manager quiet)] @
       ready_signal @ [Play_radio]) \<and>
   rm_radio_indice (the_radio_manager quiet) = PyInt 2"
  using startup_order [of quiet "''radiobot.json''" module_globals]
  by (simp add: quiet_returns) (simp add: quiet_def example_settings_def)

section \<open>The foreground loop\<close>

text \<open>
  C7 says that the foreground loop is left only through the shutdown sequence.  main.py
  catches KeyboardInterrupt around the loop and nothing else: when
  \<^verbatim>\<open>check_radio_info()\<close> raises an exception of its own, the exception leaves the
  loop and the process, and no step of the shutdown sequence is run.
\<close>

theorem loop_left_without_shutdown_counterexample:
  "fst (foreground_loop [Quiet stream_error] quiet running_world) =
     Raised (Exception ''stream error'') \<and>
   emitted (foreground_loop [Quiet stream_error] quiet) running_world =
     [Failed Check_radio_info (Exception ''stream error'')]"
  by (simp add: foreground_loop_def emitted_def loop_body_calls ready_running_world
        stream_error_pass)

text \<open>
  C7 as amended.  The foreground loop never ends by falling through.  Every pass calls
  \<^verbatim>\<open>check_radio_info()\<close>, then \<^verbatim>\<open>update_player()\<close>, then sleeps 0.05 s, and
  after any number of passes in which these return the loop is still running, with exactly
  those calls in the log.  The first pass that is disturbed ends the loop: a
  KeyboardInterrupt raised by one of its calls enters \<^verbatim>\<open>clean_exit\<close>; SIGTERM
  runs \<^verbatim>\<open>clean_exit\<close> in its handler (and once more when a KeyboardInterrupt leaves
  the handler); any other exception raised by one of its calls leaves the loop as it is,
  without the shutdown sequence.
\<close>

theorem foreground_loop_passes_and_exits:
  "fst (foreground_loop ticks eh w) \<noteq> Returned \<and>
   (ready w \<and> (\<forall>e\<in>set es. passes_quietly e) \<longrightarrow>
      foreground_loop (map Quiet es) eh w =
        (Running, w\<lparr>trace := trace w @ passes_log (length es)\<rparr>) \<and>
      (first_raise (tick_env t) (calls_before t) = Some KeyboardInterrupt \<longrightarrow>
         foreground_loop (map Quiet es @ t # rest) eh w =
           finished (clean_exit eh (w\<lparr>trace := trace w @ passes_log (length es) @
             logged (tick_env t) (calls_before t)\<rparr>))) \<and>
      (first_raise (tick_env t) (calls_before t) = Some x \<and> x \<noteq> KeyboardInterrupt \<longrightarrow>
         foreground_loop (map Quiet es @ t # rest) eh w =
           (Raised x, w\<lparr>trace := trace w @ passes_log (length es) @
             logged (tick_env t) (calls_before t)\<rparr>)) \<and>
      (first_raise e (take k loop_calls) = None \<longrightarrow>
         foreground_loop (map Quiet es @ Sigterm k e # rest) eh w =
           (case clean_exit e (w\<lparr>trace := trace w @ passes_log (length es) @
                   logged e (take k loop_calls)\<rparr>) of
              (Inl KeyboardInterrupt, w') \<Rightarrow> finished (clean_exit eh w')
            | r \<Rightarrow> finished r)))"
proof (intro conjI impI)
  show "fst (foreground_loop ticks eh w) \<noteq> Returned"
    by (rule foreground_loop_not_Returned)
next
  assume "ready w \<and> (\<forall>e\<in>set es. passes_quietly e)"
  then show "foreground_loop (map Quiet es) eh w =
        (Running, w\<lparr>trace := trace w @ passes_log (length es)\<rparr>)"
    by (simp add: foreground_loop_quiet)
next
  assume "ready w \<and> (\<forall>e\<in>set es. passes_quietly e)"
    and "first_raise (tick_env t) (calls_before t) = Some KeyboardInterrupt"
  then show "foreground_loop (map Quiet es @ t # rest) eh w =
           finished (clean_exit eh (w\<lparr>trace := trace w @ passes_log (length es) @
             logged (tick_env t) (calls_before t)\<rparr>))"
    by (intro foreground_loop_interrupted) simp_all
next
  assume "ready w \<and> (\<forall>e\<in>set es. passes_quietly e)"
    and "first_raise (tick_env t) (calls_before t) = Some x \<and> x \<noteq> KeyboardInterrupt"
  then show "foreground_loop (map Quiet es @ t # rest) eh w =
           (Raised x, w\<lparr>trace := trace w @ passes_log (length es) @
             logged (tick_env t) (calls_before t)\<rparr>)"
    by (intro foreground_loop_error) simp_all
next
  assume "ready w \<and> (\<forall>e\<in>set es. passes_quietly e)"
    and "first_raise e (take k loop_calls) = None"
  then show "foreground_loop (map Quiet es @ Sigterm k e # rest) eh w =
           (case clean_exit e (w\<lparr>trace := trace w @ passes_log (length es) @
                   logged e (take k loop_calls)\<rparr>) of
              (Inl KeyboardInterrupt, w') \<Rightarrow> finished (clean_exit eh w')
            | r \<Rightarrow> finished r)"
    by (intro foreground_loop_sigterm) simp_all
qed

theorem foreground_loop_passes_and_exits_witness:
  "ready running_world \<and> passes_quietly quiet \<and>
   foreground_loop (map Quiet [quiet, quiet]) quiet running_world =
     (Running, running_world\<lparr>trace := trace running_world @ passes_log 2\<rparr>) \<and>
   foreground_loop (map Quiet [quiet, quiet] @ [Quiet interrupted_in_sleep]) quiet running_world =
     finished (clean_exit quiet (running_world\<lparr>trace := trace running_world @ passes_log 2 @
       [Done Check_radio_info, Done Update_player,
        Failed (Time_sleep (1/20)) KeyboardInterrupt]\<rparr>)) \<and>
   foreground_loop (map Quiet [quiet, quiet] @ [Quiet stream_error]) quiet running_world =
     (Raised (Exception ''stream error''),
      running_world\<lparr>trace := trace running_world @ passes_log 2 @
        [Failed Check_radio_info (Exception ''stream error'')]\<rparr>) \<and>
   fst (foreground_loop (map Quiet [quiet, quiet] @ [Sigterm 1 quiet]) quiet running_world) =
     Raised (SystemExit 0)"
proof -
  have q: "\<forall>e\<in>set [quiet, quiet]. passes_quietly e"
    by (simp add: passes_quietly_quiet)
  have l: "length [quiet, quiet] = 2" by simp
  note t = foreground_loop_passes_and_exits [of _ quiet running_world "[quiet, quiet]"]
  have a: "foreground_loop (map Quiet [quiet, quiet]) quiet running_world =
     (Running, running_world\<lparr>trace := trace running_world @ passes_log 2\<rparr>)"
    using t [of "[]" "Quiet quiet" "[]" KeyboardInterrupt quiet 0] q ready_running_world
    unfolding l by blast
  have b: "foreground_loop (map Quiet [quiet, quiet] @ [Quiet interrupted_in_sleep]) quiet
       running_world =
     finished (clean_exit quiet (running_world\<lparr>trace := trace running_world @ passes_log 2 @
       [Done Check_radio_info, Done Update_player,
        Failed (Time_sleep (1/20)) KeyboardInterrupt]\<rparr>))"
    using t [of "[]" "Quiet interrupted_in_sleep" "[]" KeyboardInterrupt quiet 0]
      q ready_running_world interrupted_pass
    unfolding l by simp
  have c: "foreground_loop (map Quiet [quiet, quiet] @ [Quiet stream_error]) quiet running_world =
     (Raised (Exception ''stream error''),
      running_world\<lparr>trace := trace running_world @ passes_log 2 @
        [Failed Check_radio_info (Exception ''stream error'')]\<rparr>)"
    using t [of "[]" "Quiet stream_error" "[]" "Exception ''stream error''" quiet 0]
      q ready_running_world stream_error_pass
    unfolding l by simp
  have "foreground_loop (map Quiet [quiet, quiet] @ [Sigterm 1 quiet]) quiet running_world =
     (case clean_exit quiet (running_world\<lparr>trace := trace running_world @ passes_log 2 @
                   logged quiet (take 1 loop_calls)\<rparr>) of
              (Inl KeyboardInterrupt, w') \<Rightarrow> finished (clean_exit quiet w')
            | r \<Rightarrow> finished r)"
    using t [of "[]" "Quiet quiet" "[]" KeyboardInterrupt quiet 1]
      q ready_running_world sigterm_pass_quiet(1)
    unfolding l by blast
  then have d: "fst (foreground_loop (map Quiet [quiet, quiet] @ [Sigterm 1 quiet]) quiet
      running_world) = Raised (SystemExit 0)"
    by (simp add: clean_exit_ready ready_running_world ready_trace_update quiet_run)
  from a b c d show ?thesis
    by (simp add: ready_running_world passes_quietly_quiet)
qed

end
